theory Spec2Isabelle
  imports Complex_Main "HOL-Library.Word" "HOL-Library.Signed_Division" "HOL-Library.AList"
begin

unbundle bit_operations_syntax

section \<open>Machine integers and Qt value types\<close>

text \<open>
  The C++ integer fields are modelled as \<open>int\<close> with every narrowing written out:
  \<open>to_int\<close> is the conversion to a 32-bit \<open>int\<close>, \<open>to_qint64\<close> the one to a
  64-bit \<open>qint64\<close> (two's complement wrap-around). C++ \<open>/\<close> truncates towards zero,
  which is \<open>sdiv\<close>.
\<close>

definition to_int :: "int \<Rightarrow> int" where
  "to_int x = signed_take_bit 31 x"

definition to_qint64 :: "int \<Rightarrow> int" where
  "to_qint64 x = signed_take_bit 63 x"


text \<open>
  A C++ \<open>double\<close> is an IEEE 754 binary64 number: a sign, a significand of 53 bits
  and a binary exponent. It is modelled as the real number it stands for, and every
  operation as the exact operation followed by \<open>round_double\<close>, the rounding to the
  nearest \<open>double\<close> with ties going to the even significand, which is what the
  conversion from \<open>qint64\<close>, \<open>/\<close> and \<open>*\<close> do in the default rounding mode.

  \<open>exponent x\<close> is the \<open>e\<close> with \<open>2 ^ e \<le> x < 2 ^ (e + 1)\<close>, for positive \<open>x\<close>.
  The neighbours of \<open>x\<close> among the \<open>double\<close>s are the multiples of \<open>2 ^ (e - 52)\<close>,
  and below \<open>2 ^ - 1022\<close> those of \<open>2 ^ - 1074\<close>. Results of \<open>2 ^ 1024\<close> and more,
  which are infinite in a \<open>double\<close>, and a division by zero are not modelled; neither
  arises from the 64-bit operands below.
\<close>

function exponent :: "real \<Rightarrow> int" where
  "exponent x =
     (if 2 \<le> x then exponent (x / 2) + 1
      else if 0 < x \<and> x < 1 then exponent (x * 2) - 1
      else 0)"
  by pat_completeness auto

termination
proof (relation "measure (\<lambda>x. if 1 \<le> x then nat \<lfloor>x\<rfloor> else nat \<lceil>1 / x\<rceil>)")
  show "wf (measure (\<lambda>x::real. if 1 \<le> x then nat \<lfloor>x\<rfloor> else nat \<lceil>1 / x\<rceil>))" by simp
next
  fix x :: real
  assume x: "2 \<le> x"
  have "\<lfloor>x / 2\<rfloor> < \<lfloor>x\<rfloor>" using x by linarith
  moreover have "0 < \<lfloor>x\<rfloor>" using x by linarith
  ultimately show "(x / 2, x) \<in> measure (\<lambda>x. if 1 \<le> x then nat \<lfloor>x\<rfloor> else nat \<lceil>1 / x\<rceil>)"
    using x by simp
next
  fix x :: real
  assume "\<not> 2 \<le> x" and x: "0 < x \<and> x < 1"
  then have y: "1 < 1 / x" by simp
  then have c: "2 \<le> \<lceil>1 / x\<rceil>" by linarith
  show "(x * 2, x) \<in> measure (\<lambda>x. if 1 \<le> x then nat \<lfloor>x\<rfloor> else nat \<lceil>1 / x\<rceil>)"
  proof (cases "1 \<le> x * 2")
    case True
    have "\<lfloor>x * 2\<rfloor> < 2" using x by linarith
    then have "nat \<lfloor>x * 2\<rfloor> < nat \<lceil>1 / x\<rceil>" using c by linarith
    then show ?thesis using True x by simp
  next
    case False
    then have "2 < 1 / x" using x by (simp add: field_simps)
    have "1 / (x * 2) = (1 / x) / 2" by simp
    then have "\<lceil>1 / (x * 2)\<rceil> < \<lceil>1 / x\<rceil>" using \<open>2 < 1 / x\<close> by linarith
    then have "nat \<lceil>1 / (x * 2)\<rceil> < nat \<lceil>1 / x\<rceil>" using c by linarith
    then show ?thesis using False x by simp
  qed
qed

declare exponent.simps [simp del]

definition round_half_even :: "real \<Rightarrow> int" where
  "round_half_even x =
     (let f = \<lfloor>x\<rfloor> in
      if x - of_int f < 1 / 2 then f
      else if x - of_int f > 1 / 2 then f + 1
      else if even f then f else f + 1)"

definition round_double :: "real \<Rightarrow> real" where
  "round_double x =
     (let e = max (exponent \<bar>x\<bar>) (- 1022)
      in of_int (round_half_even (x * 2 powi (52 - e))) * 2 powi (e - 52))"

definition double_of_qint64 :: "int \<Rightarrow> real" where
  "double_of_qint64 n = round_double (of_int n)"

definition double_div :: "real \<Rightarrow> real \<Rightarrow> real" where
  "double_div x y = round_double (x / y)"

definition double_mul :: "real \<Rightarrow> real \<Rightarrow> real" where
  "double_mul x y = round_double (x * y)"

text \<open>
  \<open>QString\<close> is modelled as \<open>string\<close> and \<open>QByteArray\<close> as a list of bytes.
\<close>

type_synonym QString = string
type_synonym QByteArray = "8 word list"

section \<open>Data model (FileTransferManager.h)\<close>

datatype TransferType = Upload | Download

datatype TransferStatus =
  Pending | Approved | InProgress | Paused | Completed | Failed | Cancelled | Rejected

record FileTransferRequest =
  req_id :: QString
  sessionId :: QString
  filename :: QString
  fileSize :: int
  checksum :: QString
  req_type :: TransferType
  technician :: QString
  localPath :: QString

text \<open>
  \<open>percentage\<close> is a C++ \<open>double\<close>: the field holds the real number that the
  \<open>double\<close> stands for.
\<close>

record FileTransferProgress =
  transferId :: QString
  bytesTransferred :: int
  totalBytes :: int
  percentage :: real
  speed :: int
  remainingTime :: int

section \<open>FileTransferSession (FileTransferSession.cpp)\<close>

text \<open>
  The constant \<open>CHUNK_SIZE\<close> is declared in a header that is not part of the sources at
  hand, so every operation that reads it takes it as its first argument. The time stamps
  and the speed timer of the class carry no information the properties below depend on
  and are left out of the record.
\<close>

record FileTransferSession =
  m_request :: FileTransferRequest
  m_status :: TransferStatus
  m_progress :: FileTransferProgress
  m_error :: QString
  m_retryCount :: int
  m_maxRetries :: int
  m_isPaused :: bool
  m_isCancelled :: bool
  m_fileOpen :: bool
  m_totalChunks :: int
  m_completedChunks :: int
  m_lastBytesTransferred :: int

text \<open>
  The chunk count of the constructors of session and worker:
  \<open>(fileSize + CHUNK_SIZE - 1) / CHUNK_SIZE\<close>, computed in \<open>qint64\<close> and stored in the
  member \<open>m_totalChunks\<close>; the member stays 0 unless \<open>fileSize > 0\<close>. The member is an
  \<open>int\<close>: \<open>getTotalChunks\<close> returns it as \<open>int\<close>, it is compared with the \<open>int\<close>
  argument of \<open>updateChunkProgress\<close>, and the worker counts up to it with an \<open>int\<close>.
\<close>

definition totalChunksFor :: "int \<Rightarrow> int \<Rightarrow> int" where
  "totalChunksFor CHUNK_SIZE n =
     (if n > 0 then to_int (to_qint64 (to_qint64 (n + CHUNK_SIZE) - 1) sdiv CHUNK_SIZE) else 0)"

definition FileTransferSession_new :: "int \<Rightarrow> FileTransferRequest \<Rightarrow> FileTransferSession" where
  "FileTransferSession_new CHUNK_SIZE request =
     \<lparr> m_request = request,
       m_status = Pending,
       m_progress = \<lparr> transferId = req_id request, bytesTransferred = 0,
                      totalBytes = fileSize request, percentage = 0, speed = 0,
                      remainingTime = 0 \<rparr>,
       m_error = [],
       m_retryCount = 0,
       m_maxRetries = 3,
       m_isPaused = False,
       m_isCancelled = False,
       m_fileOpen = False,
       m_totalChunks = totalChunksFor CHUNK_SIZE (fileSize request),
       m_completedChunks = 0,
       m_lastBytesTransferred = 0 \<rparr>"

definition updateChunkProgress :: "int \<Rightarrow> int \<Rightarrow> FileTransferSession \<Rightarrow> FileTransferSession" where
  "updateChunkProgress CHUNK_SIZE completedChunks s =
     (let s1 = s\<lparr> m_completedChunks := completedChunks \<rparr> in
      if m_totalChunks s1 > 0 then
        (let b0 = to_qint64 (completedChunks * CHUNK_SIZE);
             b1 = (if completedChunks = m_totalChunks s1 \<and> fileSize (m_request s1) > 0
                   then fileSize (m_request s1) else b0);
             p1 = (m_progress s1)\<lparr> bytesTransferred := min b1 (fileSize (m_request s1)) \<rparr>;
             p2 = (if totalBytes p1 > 0
                   then p1\<lparr> percentage :=
                          double_mul
                            (double_div (double_of_qint64 (bytesTransferred p1))
                               (double_of_qint64 (totalBytes p1)))
                            100 \<rparr>
                   else p1)
         in s1\<lparr> m_progress := p2 \<rparr>)
      else s1)"

section \<open>QString helpers\<close>

text \<open>
  \<open>QString::number\<close> / \<open>QString::arg\<close> on an integer: the decimal numeral.
\<close>

fun decimal :: "nat \<Rightarrow> string" where
  "decimal n = (if n < 10 then [char_of (48 + n)] else decimal (n div 10) @ [char_of (48 + n mod 10)])"

definition QString_number :: "int \<Rightarrow> QString" where
  "QString_number i = (if i < 0 then CHR ''-'' # decimal (nat (- i)) else decimal (nat i))"

text \<open>
  \<open>QString::toLower\<close>, on the letters A to Z; the characters of a \<open>string\<close> are bytes,
  so case mapping outside ASCII is not modelled.
\<close>

definition toLower_char :: "char \<Rightarrow> char" where
  "toLower_char c =
     (let n = (of_char c :: nat) in if 65 \<le> n \<and> n \<le> 90 then char_of (n + 32) else c)"

definition toLower :: "QString \<Rightarrow> QString" where
  "toLower s = map toLower_char s"

text \<open>
  \<open>QFileInfo::fileName\<close> is the part of the path after the last \<open>/\<close>, and
  \<open>QFileInfo::suffix\<close> the part of the file name after its last \<open>.\<close> (empty when the
  file name has no dot), as the Qt documentation describes them.
\<close>

definition fileName :: "QString \<Rightarrow> QString" where
  "fileName path = rev (takeWhile (\<lambda>c. c \<noteq> CHR ''/'') (rev path))"

definition suffix :: "QString \<Rightarrow> QString" where
  "suffix path =
     (let fn = fileName path in
      if CHR ''.'' \<in> set fn then rev (takeWhile (\<lambda>c. c \<noteq> CHR ''.'') (rev fn)) else [])"

section \<open>FileTransferWorker (FileTransferWorker.cpp)\<close>

record FileChunk =
  chunk_transferId :: QString
  chunkIndex :: int
  chunk_data :: QByteArray
  chunk_checksum :: QString
  isLast :: bool


text \<open>
  The members of the worker. A timer is \<open>None\<close> when stopped and \<open>Some ms\<close> when it runs
  with interval \<open>ms\<close>. \<open>m_chunkRetries\<close> is the table from chunk index to retry count
  that the code reads with \<open>value(i, 0)\<close>.
\<close>

record FileTransferWorker =
  w_isRunning :: bool
  w_isPaused :: bool
  w_isCancelled :: bool
  w_currentChunkIndex :: int
  w_totalChunks :: int
  w_completedChunks :: int
  w_failedChunks :: "int set"
  w_chunkRetries :: "int \<rightharpoonup> int"
  w_completedChunkIndices :: "int set"
  w_progressTimer :: "int option"
  w_chunkTimeoutTimer :: "int option"
  w_retryTimer :: "int option"

datatype WorkerSignal =
    transferFailed QString
  | transferCompleted
  | transferCancelled
  | chunkReady FileChunk
  | chunkRequested QString int

definition FileTransferWorker_new :: "int \<Rightarrow> FileTransferSession \<Rightarrow> FileTransferWorker" where
  "FileTransferWorker_new CHUNK_SIZE session =
     \<lparr> w_isRunning = False,
       w_isPaused = False,
       w_isCancelled = False,
       w_currentChunkIndex = 0,
       w_totalChunks = totalChunksFor CHUNK_SIZE (fileSize (m_request session)),
       w_completedChunks = 0,
       w_failedChunks = {},
       w_chunkRetries = Map.empty,
       w_completedChunkIndices = {},
       w_progressTimer = None,
       w_chunkTimeoutTimer = None,
       w_retryTimer = None \<rparr>"






text \<open>
  What the constructor establishes between the request, the chunk count and the progress
  record; no member function writes \<open>m_request\<close>, \<open>m_totalChunks\<close> or \<open>totalBytes\<close>
  afterwards.
\<close>

definition session_constructed :: "int \<Rightarrow> FileTransferSession \<Rightarrow> bool" where
  "session_constructed CHUNK_SIZE s =
     (m_totalChunks s = totalChunksFor CHUNK_SIZE (fileSize (m_request s)) \<and>
      totalBytes (m_progress s) = fileSize (m_request s))"

definition request_130KiB :: FileTransferRequest where
  "request_130KiB =
     \<lparr> req_id = ''t-1'', sessionId = ''s-1'', filename = ''report.pdf'', fileSize = 133120,
       checksum = [], req_type = Upload, technician = ''alice'',
       localPath = ''/home/user/report.pdf'' \<rparr>"

definition request_128TiB :: FileTransferRequest where
  "request_128TiB = request_130KiB\<lparr> fileSize := 140737488355328 \<rparr>"

definition request_256TiB :: FileTransferRequest where
  "request_256TiB = request_130KiB\<lparr> fileSize := 281474976710657 \<rparr>"










section \<open>JSON values and QByteArray (Qt)\<close>

text \<open>
  \<open>QJsonValue\<close> as far as the code reads it: \<open>toString\<close>, \<open>toInt\<close> and \<open>toBool\<close>
  return the default (empty string, 0, false) unless the value has the matching type;
  \<open>toInt\<close> also returns 0 for a number outside the range of \<open>int\<close>. \<open>JOther\<close> covers
  null, undefined, non-integral numbers, arrays and nested objects. A \<open>QJsonObject\<close> is
  a list of members, read with \<open>map_of\<close>; a \<open>QJsonDocument\<close> holds an object or an
  array, and \<open>object()\<close> of an array document is the empty object.
\<close>

datatype QJsonValue = JBool bool | JInt int | JString QString | JOther

type_synonym QJsonObject = "(QString \<times> QJsonValue) list"

datatype QJsonDocument = DocObject QJsonObject | DocArray

definition member_value :: "QJsonObject \<Rightarrow> QString \<Rightarrow> QJsonValue" where
  "member_value obj key = (case map_of obj key of None \<Rightarrow> JOther | Some v \<Rightarrow> v)"

fun toString :: "QJsonValue \<Rightarrow> QString" where
  "toString (JString s) = s"
| "toString _ = []"

fun toInt :: "QJsonValue \<Rightarrow> int" where
  "toInt (JInt i) = (if - 2147483648 \<le> i \<and> i \<le> 2147483647 then i else 0)"
| "toInt _ = 0"

fun toBool :: "QJsonValue \<Rightarrow> bool" where
  "toBool (JBool b) = b"
| "toBool _ = False"

fun object :: "QJsonDocument \<Rightarrow> QJsonObject" where
  "object (DocObject obj) = obj"
| "object DocArray = []"

text \<open>
  \<open>QByteArray::mid(pos, len)\<close> as Qt implements it: a position beyond the end gives the
  empty array; a negative position is moved to 0 and the length shortened by it; a length
  that is negative or reaches beyond the end means "up to the end".
\<close>

definition mid :: "QByteArray \<Rightarrow> int \<Rightarrow> int \<Rightarrow> QByteArray" where
  "mid d pos len =
     (let n = int (length d) in
      if pos > n then []
      else if pos < 0 then
        (if len < 0 \<or> len + pos \<ge> n then d
         else if len + pos \<le> 0 then []
         else take (nat (len + pos)) d)
      else if len < 0 \<or> len > n - pos then drop (nat pos) d
      else take (nat len) (drop (nat pos) d))"

section \<open>ApprovalDialog (ApprovalDialog.cpp)\<close>

text \<open>
  The state of the dialog that decides its result: the members, the two timers
  (\<open>None\<close> when stopped, \<open>Some ms\<close> when running), the time-out label, the "remember"
  check box, and the code with which the dialog finished (\<open>QDialog::Rejected\<close> is 0,
  \<open>QDialog::Accepted\<close> is 1). \<open>d_transferId\<close> is the dynamic property \<open>transferId\<close>.
\<close>

record ApprovalDialog =
  d_request :: FileTransferRequest
  d_approved :: bool
  d_message :: QString
  d_timeoutSeconds :: int
  d_remainingSeconds :: int
  d_timeoutTimer :: "int option"
  d_displayTimer :: "int option"
  d_timeoutLabelVisible :: bool
  d_timeoutLabelText :: QString
  d_rememberVisible :: bool
  d_rememberChecked :: bool
  d_transferId :: QString
  d_finished :: "int option"

definition DEFAULT_TIMEOUT :: int where "DEFAULT_TIMEOUT = 60"

definition ApprovalDialog_new :: "FileTransferRequest \<Rightarrow> ApprovalDialog" where
  "ApprovalDialog_new request =
     \<lparr> d_request = request, d_approved = False, d_message = [],
       d_timeoutSeconds = DEFAULT_TIMEOUT, d_remainingSeconds = DEFAULT_TIMEOUT,
       d_timeoutTimer = None, d_displayTimer = None,
       d_timeoutLabelVisible = False, d_timeoutLabelText = [],
       d_rememberVisible = False, d_rememberChecked = False,
       d_transferId = [], d_finished = None \<rparr>"

definition updateTimeoutDisplay :: "ApprovalDialog \<Rightarrow> ApprovalDialog" where
  "updateTimeoutDisplay d =
     (let d1 = d\<lparr> d_remainingSeconds := to_int (d_remainingSeconds d - 1) \<rparr> in
      if d_remainingSeconds d1 \<le> 0
      then d1\<lparr> d_timeoutLabelText := ''Request timed out'', d_displayTimer := None \<rparr>
      else d1\<lparr> d_timeoutLabelText :=
                ''Auto-reject in '' @ QString_number (d_remainingSeconds d1) @ '' seconds'' \<rparr>)"

definition setAutoTimeout :: "int \<Rightarrow> ApprovalDialog \<Rightarrow> ApprovalDialog" where
  "setAutoTimeout seconds d =
     (let d1 = d\<lparr> d_timeoutSeconds := seconds, d_remainingSeconds := seconds \<rparr> in
      if seconds > 0
      then (updateTimeoutDisplay
              (d1\<lparr> d_timeoutTimer := Some (to_int (seconds * 1000)),
                    d_displayTimer := Some 1000 \<rparr>))
             \<lparr> d_timeoutLabelVisible := True \<rparr>
      else d1\<lparr> d_timeoutTimer := None, d_displayTimer := None,
                d_timeoutLabelVisible := False \<rparr>)"

definition setRememberOptionEnabled :: "bool \<Rightarrow> ApprovalDialog \<Rightarrow> ApprovalDialog" where
  "setRememberOptionEnabled enabled d = d\<lparr> d_rememberVisible := enabled \<rparr>"

definition shouldRememberDecision :: "ApprovalDialog \<Rightarrow> bool" where
  "shouldRememberDecision d = d_rememberChecked d"

text \<open>The slot of the single-shot time-out timer; \<open>reject()\<close> finishes the dialog.\<close>

definition onTimeout :: "ApprovalDialog \<Rightarrow> ApprovalDialog" where
  "onTimeout d =
     d\<lparr> d_approved := False, d_message := ''Request timed out'',
        d_timeoutTimer := None, d_finished := Some 0 \<rparr>"

text \<open>The user ticking or clearing the "remember" check box.\<close>

definition toggleRemember :: "ApprovalDialog \<Rightarrow> ApprovalDialog" where
  "toggleRemember d = d\<lparr> d_rememberChecked := \<not> d_rememberChecked d \<rparr>"

section \<open>Session status (FileTransferSession.cpp)\<close>

datatype SessionSignal = statusChanged TransferStatus

text \<open>
  \<open>setStatus\<close> returns at once when the status is the one already held; otherwise it
  stores the new status and emits \<open>statusChanged\<close>. The branches that follow in the
  source only update time stamps and the speed timer.
\<close>

definition setStatus :: "TransferStatus \<Rightarrow> FileTransferSession \<Rightarrow> FileTransferSession \<times> SessionSignal list" where
  "setStatus status s =
     (if m_status s = status then (s, [])
      else (s\<lparr> m_status := status \<rparr>, [statusChanged status]))"

definition setError :: "QString \<Rightarrow> FileTransferSession \<Rightarrow> FileTransferSession \<times> SessionSignal list" where
  "setError error s = setStatus Failed (s\<lparr> m_error := error \<rparr>)"

definition setPaused :: "bool \<Rightarrow> FileTransferSession \<Rightarrow> FileTransferSession \<times> SessionSignal list" where
  "setPaused paused s =
     (let s1 = s\<lparr> m_isPaused := paused \<rparr> in
      if paused then setStatus Paused s1 else setStatus InProgress s1)"

definition setCancelled :: "bool \<Rightarrow> FileTransferSession \<Rightarrow> FileTransferSession \<times> SessionSignal list" where
  "setCancelled cancelled s =
     (let s1 = s\<lparr> m_isCancelled := cancelled \<rparr> in
      if cancelled then setStatus Cancelled s1 else (s1, []))"

definition closeFile :: "FileTransferSession \<Rightarrow> FileTransferSession" where
  "closeFile s = s\<lparr> m_fileOpen := False \<rparr>"


section \<open>Worker control (FileTransferWorker.cpp)\<close>

text \<open>
  The worker holds a pointer to its session, so the operations below take the worker
  together with the session it points to and return both.
\<close>

definition Worker_pauseTransfer ::
  "FileTransferWorker \<times> FileTransferSession \<Rightarrow>
   (FileTransferWorker \<times> FileTransferSession) \<times> SessionSignal list" where
  "Worker_pauseTransfer ws =
     (case ws of (w, s) \<Rightarrow>
        if \<not> w_isRunning w \<or> w_isPaused w then ((w, s), [])
        else
          (let w1 = w\<lparr> w_isPaused := True, w_progressTimer := None,
                        w_chunkTimeoutTimer := None, w_retryTimer := None \<rparr>
           in case setPaused True s of (s1, sigs) \<Rightarrow> ((w1, s1), sigs)))"

definition Worker_resumeTransfer ::
  "FileTransferWorker \<times> FileTransferSession \<Rightarrow>
   (FileTransferWorker \<times> FileTransferSession) \<times> SessionSignal list" where
  "Worker_resumeTransfer ws =
     (case ws of (w, s) \<Rightarrow>
        if \<not> w_isRunning w \<or> \<not> w_isPaused w then ((w, s), [])
        else
          (let w1 = w\<lparr> w_isPaused := False, w_progressTimer := Some 500 \<rparr>
           in case setPaused False s of (s1, sigs) \<Rightarrow> ((w1, s1), sigs)))"

definition Worker_cancelTransfer ::
  "FileTransferWorker \<times> FileTransferSession \<Rightarrow>
   (FileTransferWorker \<times> FileTransferSession) \<times> SessionSignal list" where
  "Worker_cancelTransfer ws =
     (case ws of (w, s) \<Rightarrow>
        if \<not> w_isRunning w then ((w, s), [])
        else
          (let w1 = w\<lparr> w_isCancelled := True, w_isRunning := False, w_progressTimer := None,
                        w_chunkTimeoutTimer := None, w_retryTimer := None \<rparr>
           in case setCancelled True s of (s1, sigs) \<Rightarrow> ((w1, closeFile s1), sigs)))"

section \<open>FileTransferManager (FileTransferManager.cpp)\<close>

definition DEFAULT_CHUNK_SIZE :: int where "DEFAULT_CHUNK_SIZE = 64 * 1024"
definition DEFAULT_MAX_CONCURRENT :: int where "DEFAULT_MAX_CONCURRENT = 3"
definition PING_INTERVAL :: int where "PING_INTERVAL = 30000"
definition RECONNECT_INTERVAL :: int where "RECONNECT_INTERVAL = 5000"
definition MAX_FILE_SIZE :: int where "MAX_FILE_SIZE = 100 * 1024 * 1024"
definition MAX_RECONNECT_ATTEMPTS :: int where "MAX_RECONNECT_ATTEMPTS = 5"

text \<open>
  The persistent \<open>QSettings\<close> store: a key that was never written is \<open>None\<close>
  (the list of extensions is empty then), and the group \<open>RememberedDecisions\<close> is a
  list of keys with their values.
\<close>

record Settings =
  AutoApproval_Enabled :: "bool option"
  AutoApproval_Timeout :: "int option"
  AutoApproval_RememberDecision :: "bool option"
  Security_MaxFileSize :: "int option"
  Security_AllowedExtensions :: "QString list"
  RememberedDecisions :: "(QString \<times> bool) list"

definition empty_settings :: Settings where
  "empty_settings =
     \<lparr> AutoApproval_Enabled = None, AutoApproval_Timeout = None,
       AutoApproval_RememberDecision = None, Security_MaxFileSize = None,
       Security_AllowedExtensions = [], RememberedDecisions = [] \<rparr>"

text \<open>
  A \<open>QThread\<close>, as far as the manager is concerned: whether it runs. Destroying a
  \<open>QThread\<close> that still runs ends the process (Qt reports
  \<open>QThread: Destroyed while thread is still running\<close> as a fatal error), which is the
  one value of \<open>Fatal\<close>.
\<close>

record QThread =
  t_isRunning :: bool

datatype Fatal = QThread_destroyed_while_running

text \<open>
  The members of the manager. The two timers are single flags (running or not), their
  intervals being fixed; the tables of sessions, workers and threads are association
  lists kept with \<open>AList.update\<close> and \<open>AList.delete\<close>, so every key occurs once.
\<close>

record FileTransferManager =
  m_serverUrl :: QString
  m_sessionId :: QString
  m_isConnected :: bool
  m_pingTimer :: bool
  m_reconnectTimer :: bool
  m_reconnectAttempts :: int
  m_transferSessions :: "(QString \<times> FileTransferSession) list"
  m_transferWorkers :: "(QString \<times> FileTransferWorker) list"
  m_transferThreads :: "(QString \<times> QThread) list"
  m_chunkSize :: int
  m_maxConcurrentTransfers :: int
  m_encryptionEnabled :: bool
  m_compressionEnabled :: bool
  m_maxFileSize :: int
  m_allowedExtensions :: "QString list"
  m_autoApprovalEnabled :: bool
  m_approvalTimeout :: int
  m_rememberDecisionEnabled :: bool
  m_settings :: Settings
  m_rememberedDecisions :: "QString \<rightharpoonup> bool"
  m_pendingRequests :: "QString \<rightharpoonup> FileTransferRequest"

text \<open>
  What a slot of the manager does to the outside: commands to the socket, signals emitted
  and dialogs shown, in the order in which they happen. A control message is the JSON
  object handed to the socket; its \<open>timestamp\<close> member is the current time and is left
  out.
\<close>

datatype Effect =
    Socket_open QString
  | Socket_close
  | Socket_sendText QJsonObject
  | Socket_sendBinary QByteArray
  | Emit_connected
  | Emit_disconnected
  | Emit_connectionError QString
  | Emit_transferStarted QString
  | Emit_transferCancelled QString
  | Emit_transferApproved QString
  | Emit_transferRejected QString QString
  | Emit_chunkReceived QString int
  | Emit_fileValidationFailed QString QString
  | Emit_transferApprovalRequested FileTransferRequest
  | Emit_transferApprovalDecision QString bool QString
  | Dialog_show ApprovalDialog

definition loadSettings :: "FileTransferManager \<Rightarrow> FileTransferManager" where
  "loadSettings m =
     (let st = m_settings m in
      m\<lparr> m_autoApprovalEnabled := (case AutoApproval_Enabled st of None \<Rightarrow> False | Some b \<Rightarrow> b),
         m_approvalTimeout := (case AutoApproval_Timeout st of None \<Rightarrow> 30 | Some t \<Rightarrow> t),
         m_rememberDecisionEnabled :=
           (case AutoApproval_RememberDecision st of None \<Rightarrow> True | Some b \<Rightarrow> b),
         m_maxFileSize := (case Security_MaxFileSize st of None \<Rightarrow> MAX_FILE_SIZE | Some n \<Rightarrow> n),
         m_allowedExtensions :=
           (if Security_AllowedExtensions st \<noteq> [] then Security_AllowedExtensions st
            else m_allowedExtensions m),
         m_rememberedDecisions :=
           foldl (\<lambda>h (key, approved). h(key \<mapsto> approved)) (m_rememberedDecisions m)
             (RememberedDecisions st) \<rparr>)"

definition saveSettings :: "FileTransferManager \<Rightarrow> FileTransferManager" where
  "saveSettings m =
     m\<lparr> m_settings := (m_settings m)
          \<lparr> AutoApproval_Enabled := Some (m_autoApprovalEnabled m),
            AutoApproval_Timeout := Some (m_approvalTimeout m),
            AutoApproval_RememberDecision := Some (m_rememberDecisionEnabled m),
            Security_MaxFileSize := Some (m_maxFileSize m),
            Security_AllowedExtensions := m_allowedExtensions m \<rparr> \<rparr>"

definition FileTransferManager_new :: "Settings \<Rightarrow> FileTransferManager" where
  "FileTransferManager_new st =
     loadSettings
       \<lparr> m_serverUrl = [], m_sessionId = [], m_isConnected = False,
         m_pingTimer = False, m_reconnectTimer = False, m_reconnectAttempts = 0,
         m_transferSessions = [], m_transferWorkers = [], m_transferThreads = [],
         m_chunkSize = DEFAULT_CHUNK_SIZE,
         m_maxConcurrentTransfers = DEFAULT_MAX_CONCURRENT,
         m_encryptionEnabled = True, m_compressionEnabled = False,
         m_maxFileSize = MAX_FILE_SIZE,
         m_allowedExtensions =
           [''.txt'', ''.pdf'', ''.doc'', ''.docx'', ''.xls'', ''.xlsx'',
            ''.zip'', ''.rar'', ''.jpg'', ''.png'', ''.gif'', ''.bmp'',
            ''.ppt'', ''.pptx'', ''.csv'', ''.rtf'', ''.odt'', ''.ods''],
         m_autoApprovalEnabled = False, m_approvalTimeout = 30,
         m_rememberDecisionEnabled = True, m_settings = st,
         m_rememberedDecisions = Map.empty, m_pendingRequests = Map.empty \<rparr>"

definition setApprovalTimeout :: "int \<Rightarrow> FileTransferManager \<Rightarrow> FileTransferManager" where
  "setApprovalTimeout seconds m = saveSettings (m\<lparr> m_approvalTimeout := max 5 seconds \<rparr>)"

definition getApprovalTimeout :: "FileTransferManager \<Rightarrow> int" where
  "getApprovalTimeout m = m_approvalTimeout m"

definition addAllowedFileExtension :: "QString \<Rightarrow> FileTransferManager \<Rightarrow> FileTransferManager" where
  "addAllowedFileExtension extension m =
     (let ext0 = toLower extension;
          ext = (if take 1 ext0 = ''.'' then ext0 else CHR ''.'' # ext0)
      in if ext \<in> set (m_allowedExtensions m) then m
         else saveSettings (m\<lparr> m_allowedExtensions := m_allowedExtensions m @ [ext] \<rparr>))"

definition createControlMessage :: "QString \<Rightarrow> QJsonObject" where
  "createControlMessage ty = [(''type'', JString ty)]"

definition sendControlMessage :: "FileTransferManager \<Rightarrow> QJsonObject \<Rightarrow> Effect list" where
  "sendControlMessage m message = (if \<not> m_isConnected m then [] else [Socket_sendText message])"

subsection \<open>Approval and security\<close>

definition processApprovalDecision ::
  "FileTransferManager \<Rightarrow> QString \<Rightarrow> bool \<Rightarrow> QString \<Rightarrow> FileTransferManager \<times> Effect list" where
  "processApprovalDecision m tid approved message =
     (let m1 = m\<lparr> m_pendingRequests := (m_pendingRequests m)(tid := None) \<rparr>;
          response = createControlMessage ''transfer_approval'' @
                     [(''transfer_id'', JString tid), (''approved'', JBool approved),
                      (''message'', JString message)]
      in (m1, sendControlMessage m1 response @
              [Emit_transferApprovalDecision tid approved message]))"

definition isFileExtensionAllowed :: "FileTransferManager \<Rightarrow> QString \<Rightarrow> bool" where
  "isFileExtensionAllowed m filePath =
     (let extension = ''.'' @ toLower (suffix filePath)
      in extension \<in> set (m_allowedExtensions m))"

definition isFileSizeValid :: "FileTransferManager \<Rightarrow> int \<Rightarrow> bool" where
  "isFileSizeValid m fileSize' = (fileSize' > 0 \<and> fileSize' \<le> m_maxFileSize m)"

text \<open>
  \<open>checkRememberedDecision\<close> returns whether the id is in the table and, through its
  reference argument, the stored value: \<open>None\<close> is "not contained".
\<close>

definition checkRememberedDecision :: "FileTransferManager \<Rightarrow> QString \<Rightarrow> bool option" where
  "checkRememberedDecision m tid = m_rememberedDecisions m tid"

definition saveRememberedDecision :: "QString \<Rightarrow> bool \<Rightarrow> FileTransferManager \<Rightarrow> FileTransferManager" where
  "saveRememberedDecision tid approved m =
     m\<lparr> m_rememberedDecisions := (m_rememberedDecisions m)(tid \<mapsto> approved),
        m_settings := (m_settings m)
          \<lparr> RememberedDecisions := AList.update tid approved (RememberedDecisions (m_settings m)) \<rparr> \<rparr>"

definition showApprovalDialog ::
  "FileTransferManager \<Rightarrow> FileTransferRequest \<Rightarrow> FileTransferManager \<times> Effect list" where
  "showApprovalDialog m request =
     (case (if m_rememberDecisionEnabled m then checkRememberedDecision m (req_id request)
            else None) of
        Some approved \<Rightarrow>
          processApprovalDecision m (req_id request) approved
            (if approved then ''Auto-approved (remembered)'' else ''Auto-rejected (remembered)'')
      | None \<Rightarrow>
          (let d0 = ApprovalDialog_new request;
               d1 = (if m_approvalTimeout m > 0 then setAutoTimeout (m_approvalTimeout m) d0
                     else d0);
               d2 = setRememberOptionEnabled (m_rememberDecisionEnabled m) d1;
               d3 = d2\<lparr> d_transferId := req_id request \<rparr>
           in (m, [Dialog_show d3])))"

definition onApprovalDialogFinished ::
  "FileTransferManager \<Rightarrow> ApprovalDialog \<Rightarrow> FileTransferManager \<times> Effect list" where
  "onApprovalDialogFinished m dialog =
     (let tid = d_transferId dialog;
          approved = d_approved dialog;
          message = d_message dialog;
          m1 = (if shouldRememberDecision dialog then saveRememberedDecision tid approved m
                else m)
      in processApprovalDecision m1 tid approved message)"

text \<open>
  \<open>onTransferRequestReceived\<close>, from the point where the members of the JSON request
  have been copied into a \<open>FileTransferRequest\<close>.
\<close>

definition onTransferRequestReceived ::
  "FileTransferManager \<Rightarrow> FileTransferRequest \<Rightarrow> FileTransferManager \<times> Effect list" where
  "onTransferRequestReceived m transferRequest =
     (let m1 = m\<lparr> m_pendingRequests :=
                    (m_pendingRequests m)(req_id transferRequest \<mapsto> transferRequest) \<rparr>
      in if \<not> isFileExtensionAllowed m1 (filename transferRequest) then
           (let errorMessage = ''File extension not allowed: '' @ suffix (filename transferRequest)
            in case processApprovalDecision m1 (req_id transferRequest) False errorMessage of
                 (m2, out) \<Rightarrow>
                   (m2, Emit_fileValidationFailed (filename transferRequest) errorMessage # out))
         else if \<not> isFileSizeValid m1 (fileSize transferRequest) then
           (let errorMessage = ''File size exceeds maximum allowed: '' @
                               QString_number (fileSize transferRequest) @ '' bytes''
            in case processApprovalDecision m1 (req_id transferRequest) False errorMessage of
                 (m2, out) \<Rightarrow>
                   (m2, Emit_fileValidationFailed (filename transferRequest) errorMessage # out))
         else if m_autoApprovalEnabled m1 then
           processApprovalDecision m1 (req_id transferRequest) True ''Auto-approved''
         else
           (case showApprovalDialog m1 transferRequest of
              (m2, out) \<Rightarrow> (m2, Emit_transferApprovalRequested transferRequest # out)))"

text \<open>
  What the outcome of a request looks like from outside: the decisions announced with
  \<open>transferApprovalDecision\<close> and the dialogs shown.
\<close>

fun decisions :: "Effect list \<Rightarrow> (QString \<times> bool \<times> QString) list" where
  "decisions [] = []"
| "decisions (Emit_transferApprovalDecision tid approved message # es) =
     (tid, approved, message) # decisions es"
| "decisions (e # es) = decisions es"

fun dialogs :: "Effect list \<Rightarrow> ApprovalDialog list" where
  "dialogs [] = []"
| "dialogs (Dialog_show d # es) = d # dialogs es"
| "dialogs (e # es) = dialogs es"

subsection \<open>Validation of a file to upload\<close>

text \<open>
  What \<open>QFileInfo\<close> and \<open>QMimeDatabase\<close> report about a path on the local file system.
\<close>

record FileEntry =
  fi_exists :: bool
  fi_isFile :: bool
  fi_size :: int
  fi_mimeName :: QString

definition startsWith :: "QString \<Rightarrow> QString \<Rightarrow> bool" where
  "startsWith s p = (take (length p) s = p)"

text \<open>
  \<open>validateFile\<close> returns \<open>false\<close> with an error message (\<open>Inl\<close>) or \<open>true\<close>
  (\<open>Inr\<close>).
\<close>

definition validateFile ::
  "FileTransferManager \<Rightarrow> (QString \<Rightarrow> FileEntry) \<Rightarrow> QString \<Rightarrow> QString + unit" where
  "validateFile m fs filePath =
     (let fileInfo = fs filePath in
      if \<not> fi_exists fileInfo then Inl ''File does not exist''
      else if \<not> fi_isFile fileInfo then Inl ''Path is not a file''
      else if fi_size fileInfo > m_maxFileSize m then
        Inl (''File size ('' @ QString_number (fi_size fileInfo sdiv (1024 * 1024)) @
             '' MB) exceeds maximum allowed size ('' @
             QString_number (m_maxFileSize m sdiv (1024 * 1024)) @ '' MB)'')
      else
        (let extension = toLower (suffix filePath) in
         if extension \<noteq> [] \<and> (''.'' @ extension) \<notin> set (m_allowedExtensions m) then
           Inl (''File extension '' @ [CHR 0x27] @ ''.'' @ extension @ [CHR 0x27] @
                '' is not allowed'')
         else if startsWith (fi_mimeName fileInfo) ''application/x-executable'' then
           Inl ''Executable files are not allowed''
         else Inr ()))"

definition setAutoApprovalEnabled :: "bool \<Rightarrow> FileTransferManager \<Rightarrow> FileTransferManager" where
  "setAutoApprovalEnabled enabled m = saveSettings (m\<lparr> m_autoApprovalEnabled := enabled \<rparr>)"

definition setRememberDecisionEnabled :: "bool \<Rightarrow> FileTransferManager \<Rightarrow> FileTransferManager" where
  "setRememberDecisionEnabled enabled m = saveSettings (m\<lparr> m_rememberDecisionEnabled := enabled \<rparr>)"

subsection \<open>Example states\<close>

definition manager_default :: FileTransferManager where
  "manager_default = FileTransferManager_new empty_settings"

definition request_exe :: FileTransferRequest where
  "request_exe =
     \<lparr> req_id = ''t-9'', sessionId = ''s-1'', filename = ''setup.exe'', fileSize = 1000,
       checksum = [], req_type = Upload, technician = ''alice'', localPath = [] \<rparr>"

definition request_txt :: FileTransferRequest where
  "request_txt = request_exe\<lparr> filename := ''notes.txt'' \<rparr>"

definition plain_file :: "QString \<Rightarrow> FileEntry" where
  "plain_file path =
     \<lparr> fi_exists = True, fi_isFile = True, fi_size = 10, fi_mimeName = ''text/plain'' \<rparr>"

text \<open>
  The manager after a request for \<open>notes.txt\<close> was prompted, the user ticked the
  "remember" box of the dialog and did not press a button, and the time-out timer fired.
\<close>

definition timed_out_ticked :: FileTransferManager where
  "timed_out_ticked =
     fst (onApprovalDialogFinished (fst (onTransferRequestReceived manager_default request_txt))
            (onTimeout (toggleRemember
               (hd (dialogs (snd (onTransferRequestReceived manager_default request_txt)))))))"

subsection \<open>Connection management\<close>

definition connectToServer :: "QString \<Rightarrow> FileTransferManager \<Rightarrow> FileTransferManager \<times> Effect list" where
  "connectToServer serverUrl m =
     (m\<lparr> m_serverUrl := serverUrl, m_reconnectAttempts := 0 \<rparr>, [Socket_open serverUrl])"

definition registerSession :: "FileTransferManager \<Rightarrow> Effect list" where
  "registerSession m =
     (if \<not> m_isConnected m \<or> m_sessionId m = [] then []
      else sendControlMessage m
             (createControlMessage ''session_register'' @
              [(''session_id'', JString (m_sessionId m)), (''role'', JString ''client'')]))"

definition onWebSocketConnected :: "FileTransferManager \<Rightarrow> FileTransferManager \<times> Effect list" where
  "onWebSocketConnected m =
     (let m1 = m\<lparr> m_isConnected := True, m_reconnectAttempts := 0,
                   m_reconnectTimer := False, m_pingTimer := True \<rparr>
      in (m1, (if m_sessionId m1 \<noteq> [] then registerSession m1 else []) @ [Emit_connected]))"

definition onWebSocketDisconnected :: "FileTransferManager \<Rightarrow> FileTransferManager \<times> Effect list" where
  "onWebSocketDisconnected m =
     (let m1 = m\<lparr> m_isConnected := False, m_pingTimer := False \<rparr>;
          m2 = (if m_reconnectAttempts m1 < MAX_RECONNECT_ATTEMPTS
                then m1\<lparr> m_reconnectTimer := True \<rparr> else m1)
      in (m2, [Emit_disconnected]))"

text \<open>
  The function connected to the \<open>timeout\<close> signal of the reconnect timer in the
  constructor.
\<close>

definition reconnectTimer_timeout :: "FileTransferManager \<Rightarrow> FileTransferManager \<times> Effect list" where
  "reconnectTimer_timeout m =
     (if m_reconnectAttempts m < MAX_RECONNECT_ATTEMPTS
      then (m\<lparr> m_reconnectAttempts := to_int (m_reconnectAttempts m + 1) \<rparr>,
            [Socket_open (m_serverUrl m)])
      else (m, [Emit_connectionError ''Failed to reconnect after multiple attempts'']))"

definition onWebSocketError :: "QString \<Rightarrow> FileTransferManager \<Rightarrow> FileTransferManager \<times> Effect list" where
  "onWebSocketError errorString m = (m, [Emit_connectionError errorString])"

definition sendPing :: "FileTransferManager \<Rightarrow> Effect list" where
  "sendPing m = (if m_isConnected m then sendControlMessage m (createControlMessage ''ping'') else [])"

text \<open>
  What the socket and the two timers can do to the manager. The reconnect timer is
  single-shot: it fires only while it runs and is stopped when it has fired. The ping
  timer repeats while it runs.
\<close>

datatype TransportEvent =
    Connected
  | Disconnected
  | SocketError QString
  | ReconnectTimerFires
  | PingTimerFires

fun transport_step :: "FileTransferManager \<Rightarrow> TransportEvent \<Rightarrow> FileTransferManager \<times> Effect list" where
  "transport_step m Connected = onWebSocketConnected m"
| "transport_step m Disconnected = onWebSocketDisconnected m"
| "transport_step m (SocketError e) = onWebSocketError e m"
| "transport_step m ReconnectTimerFires =
     (if m_reconnectTimer m then reconnectTimer_timeout (m\<lparr> m_reconnectTimer := False \<rparr>)
      else (m, []))"
| "transport_step m PingTimerFires = (if m_pingTimer m then (m, sendPing m) else (m, []))"

fun transport_run :: "FileTransferManager \<Rightarrow> TransportEvent list \<Rightarrow> FileTransferManager \<times> Effect list" where
  "transport_run m [] = (m, [])"
| "transport_run m (e # es) =
     (case transport_step m e of (m1, out1) \<Rightarrow>
        (case transport_run m1 es of (m2, out2) \<Rightarrow> (m2, out1 @ out2)))"

text \<open>
  The reconnect attempts among the effects of a run: the socket is opened by
  \<open>connectToServer\<close> and by the function of the reconnect timer only, and the events
  above do not include a call of \<open>connectToServer\<close>.
\<close>

fun reconnect_attempts :: "Effect list \<Rightarrow> nat" where
  "reconnect_attempts [] = 0"
| "reconnect_attempts (Socket_open url # es) = Suc (reconnect_attempts es)"
| "reconnect_attempts (e # es) = reconnect_attempts es"

text \<open>
  A connection that is lost and never comes back: every reconnect attempt ends with the
  socket reporting an error and \<open>disconnected\<close>; two more ticks of the timer follow.
\<close>

definition failed_attempt :: "TransportEvent list" where
  "failed_attempt = [ReconnectTimerFires, SocketError ''Connection refused'', Disconnected]"

definition lost_for_good :: "TransportEvent list" where
  "lost_for_good = concat (replicate 5 failed_attempt) @ [ReconnectTimerFires, ReconnectTimerFires]"

definition connection_lost :: "TransportEvent list" where
  "connection_lost = [Connected, Disconnected] @ lost_for_good"

definition manager_connecting :: FileTransferManager where
  "manager_connecting = fst (connectToServer ''wss://relay.example/ft'' manager_default)"

definition manager_connected :: FileTransferManager where
  "manager_connected = fst (transport_step manager_connecting Connected)"

definition manager_exhausted :: FileTransferManager where
  "manager_exhausted = fst (transport_run manager_connecting connection_lost)"

subsection \<open>Transfers: start, responses of the peer, pause, resume, cancel\<close>

text \<open>
  A slot of the manager that reaches \<open>startTransfer\<close> or \<open>cancelTransfer\<close> either
  returns, with the new state of the manager and its effects (\<open>Inr\<close>), or ends the
  process (\<open>Inl\<close>). \<open>and_then\<close> runs a second step after a first one that returned.
\<close>

type_synonym Step = "Fatal + FileTransferManager \<times> Effect list"

definition and_then :: "Step \<Rightarrow> (FileTransferManager \<Rightarrow> Step) \<Rightarrow> Step" where
  "and_then r f =
     (case r of
        Inl e \<Rightarrow> Inl e
      | Inr (m1, out1) \<Rightarrow>
          (case f m1 of
             Inl e \<Rightarrow> Inl e
           | Inr (m2, out2) \<Rightarrow> Inr (m2, out1 @ out2)))"

definition thread_runs :: "FileTransferManager \<Rightarrow> QString \<Rightarrow> bool" where
  "thread_runs m tid =
     (case map_of (m_transferThreads m) tid of None \<Rightarrow> False | Some thread \<Rightarrow> t_isRunning thread)"

text \<open>
  \<open>startTransfer\<close>. The worker is created from the session and stored under the
  transfer id; storing it destroys a worker already held under that id, whose destructor
  runs \<open>cancelTransfer\<close> on the same session. The new thread is then stored under the
  id, which destroys a thread already held there: the process ends if that thread still
  runs. Otherwise the new thread is started and the session is set to \<open>InProgress\<close>.
  The started thread runs the worker's \<open>startTransfer\<close> later; that call is not part
  of this step.
\<close>

definition startTransfer :: "int \<Rightarrow> FileTransferManager \<Rightarrow> QString \<Rightarrow> Step" where
  "startTransfer CHUNK_SIZE m tid =
     (case map_of (m_transferSessions m) tid of
        None \<Rightarrow> Inr (m, [])
      | Some session \<Rightarrow>
          (let activeCount = int (length (m_transferWorkers m)) in
           if activeCount \<ge> m_maxConcurrentTransfers m then Inr (m, [])
           else
             (let worker = FileTransferWorker_new CHUNK_SIZE session;
                  session1 = (case map_of (m_transferWorkers m) tid of
                                None \<Rightarrow> session
                              | Some old \<Rightarrow> snd (fst (Worker_cancelTransfer (old, session))))
              in if thread_runs m tid then Inl QThread_destroyed_while_running
                 else
                   (let thread = \<lparr> t_isRunning = True \<rparr>;
                        session2 = fst (setStatus InProgress session1)
                    in Inr (m\<lparr> m_transferWorkers := AList.update tid worker (m_transferWorkers m),
                               m_transferThreads := AList.update tid thread (m_transferThreads m),
                               m_transferSessions :=
                                 AList.update tid session2 (m_transferSessions m) \<rparr>,
                            [Emit_transferStarted tid])))))"

text \<open>
  The function that \<open>requestFileUpload\<close> and \<open>requestFileDownload\<close> connect to the
  \<open>statusChanged\<close> signal of every session they create. The worker connects its slot
  \<open>onSessionStatusChanged\<close> to the same signal; the worker lives in a thread of its own,
  so that slot runs there later and is not part of the manager's step.
\<close>

definition session_statusChanged ::
  "int \<Rightarrow> FileTransferManager \<Rightarrow> QString \<Rightarrow> TransferStatus \<Rightarrow> Step" where
  "session_statusChanged CHUNK_SIZE m tid status =
     (if status = Approved then startTransfer CHUNK_SIZE m tid else Inr (m, []))"

fun deliver :: "int \<Rightarrow> FileTransferManager \<Rightarrow> QString \<Rightarrow> SessionSignal list \<Rightarrow> Step" where
  "deliver CHUNK_SIZE m tid [] = Inr (m, [])"
| "deliver CHUNK_SIZE m tid (statusChanged status # sigs) =
     and_then (session_statusChanged CHUNK_SIZE m tid status)
       (\<lambda>m1. deliver CHUNK_SIZE m1 tid sigs)"

text \<open>
  A call of a member function of the session stored under an id, with the signals it
  emits delivered to the manager; nothing happens when the table has no such session.
  Likewise for a member function of the worker stored under the id, which acts on the
  worker and on the session of the same id.
\<close>

definition on_session ::
  "int \<Rightarrow> FileTransferManager \<Rightarrow> QString \<Rightarrow>
   (FileTransferSession \<Rightarrow> FileTransferSession \<times> SessionSignal list) \<Rightarrow> Step" where
  "on_session CHUNK_SIZE m tid f =
     (case map_of (m_transferSessions m) tid of
        None \<Rightarrow> Inr (m, [])
      | Some session \<Rightarrow>
          (case f session of (session1, sigs) \<Rightarrow>
             deliver CHUNK_SIZE
               (m\<lparr> m_transferSessions := AList.update tid session1 (m_transferSessions m) \<rparr>)
               tid sigs))"

definition on_worker ::
  "int \<Rightarrow> FileTransferManager \<Rightarrow> QString \<Rightarrow>
   (FileTransferWorker \<times> FileTransferSession \<Rightarrow>
      (FileTransferWorker \<times> FileTransferSession) \<times> SessionSignal list) \<Rightarrow> Step" where
  "on_worker CHUNK_SIZE m tid f =
     (case (map_of (m_transferWorkers m) tid, map_of (m_transferSessions m) tid) of
        (Some worker, Some session) \<Rightarrow>
          (case f (worker, session) of ((worker1, session1), sigs) \<Rightarrow>
             deliver CHUNK_SIZE
               (m\<lparr> m_transferWorkers := AList.update tid worker1 (m_transferWorkers m),
                    m_transferSessions := AList.update tid session1 (m_transferSessions m) \<rparr>)
               tid sigs)
      | _ \<Rightarrow> Inr (m, []))"

definition handleTransferResponse :: "int \<Rightarrow> FileTransferManager \<Rightarrow> QJsonObject \<Rightarrow> Step" where
  "handleTransferResponse CHUNK_SIZE m message =
     (let tid = toString (member_value message ''transfer_id'');
          status = toString (member_value message ''status'');
          responseMessage = toString (member_value message ''message'')
      in if map_of (m_transferSessions m) tid = None then Inr (m, [])
         else if status = ''pending'' then on_session CHUNK_SIZE m tid (setStatus Pending)
         else if status = ''approved'' then on_session CHUNK_SIZE m tid (setStatus Approved)
         else if status = ''rejected'' then
           and_then (on_session CHUNK_SIZE m tid (setStatus Rejected))
             (\<lambda>m1. on_session CHUNK_SIZE m1 tid (setError responseMessage))
         else Inr (m, []))"

definition handleTransferStatusUpdate :: "int \<Rightarrow> FileTransferManager \<Rightarrow> QJsonObject \<Rightarrow> Step" where
  "handleTransferStatusUpdate CHUNK_SIZE m message =
     (let tid = toString (member_value message ''transfer_id'');
          status = toString (member_value message ''status'');
          statusMessage = toString (member_value message ''message'')
      in if map_of (m_transferSessions m) tid = None then Inr (m, [])
         else if status = ''approved'' then
           and_then (on_session CHUNK_SIZE m tid (setStatus Approved))
             (\<lambda>m1. Inr (m1, [Emit_transferApproved tid]))
         else if status = ''rejected'' then
           and_then (on_session CHUNK_SIZE m tid (setStatus Rejected))
             (\<lambda>m1. and_then (on_session CHUNK_SIZE m1 tid (setError statusMessage))
                (\<lambda>m2. Inr (m2, [Emit_transferRejected tid statusMessage])))
         else Inr (m, []))"

definition transfer_control :: "QString \<Rightarrow> QString \<Rightarrow> QJsonObject" where
  "transfer_control tid action =
     createControlMessage ''transfer_control'' @
     [(''transfer_id'', JString tid), (''action'', JString action)]"

definition pauseTransfer :: "int \<Rightarrow> FileTransferManager \<Rightarrow> QString \<Rightarrow> Step" where
  "pauseTransfer CHUNK_SIZE m tid =
     and_then (on_worker CHUNK_SIZE m tid Worker_pauseTransfer)
       (\<lambda>m1. Inr (m1, sendControlMessage m1 (transfer_control tid ''pause'')))"

definition resumeTransfer :: "int \<Rightarrow> FileTransferManager \<Rightarrow> QString \<Rightarrow> Step" where
  "resumeTransfer CHUNK_SIZE m tid =
     and_then (on_worker CHUNK_SIZE m tid Worker_resumeTransfer)
       (\<lambda>m1. Inr (m1, sendControlMessage m1 (transfer_control tid ''resume'')))"

text \<open>
  \<open>cancelTransfer\<close>. After the worker was told to cancel, the thread held under the id
  is asked to quit and is waited for, for at most five seconds; \<open>finished\<close> stands for
  the result of that \<open>wait(5000)\<close>, which is true when the thread has ended. The session
  is set to \<open>Cancelled\<close>, then worker and thread are removed from their tables, which
  destroys them: the process ends if the thread still runs.
\<close>

definition quit_and_wait :: "bool \<Rightarrow> QString \<Rightarrow> FileTransferManager \<Rightarrow> FileTransferManager" where
  "quit_and_wait finished tid m =
     (case map_of (m_transferThreads m) tid of
        None \<Rightarrow> m
      | Some thread \<Rightarrow>
          m\<lparr> m_transferThreads :=
               AList.update tid (thread\<lparr> t_isRunning := t_isRunning thread \<and> \<not> finished \<rparr>)
                 (m_transferThreads m) \<rparr>)"

definition cancelTransfer :: "int \<Rightarrow> bool \<Rightarrow> FileTransferManager \<Rightarrow> QString \<Rightarrow> Step" where
  "cancelTransfer CHUNK_SIZE finished m tid =
     and_then (on_worker CHUNK_SIZE m tid Worker_cancelTransfer)
       (\<lambda>m1. and_then (on_session CHUNK_SIZE (quit_and_wait finished tid m1) tid (setStatus Cancelled))
          (\<lambda>m2. if thread_runs m2 tid then Inl QThread_destroyed_while_running
                else
                  (let m3 = m2\<lparr> m_transferWorkers := AList.delete tid (m_transferWorkers m2),
                                 m_transferThreads := AList.delete tid (m_transferThreads m2) \<rparr>
                   in Inr (m3, sendControlMessage m3 (transfer_control tid ''cancel'') @
                               [Emit_transferCancelled tid]))))"

definition status_of :: "FileTransferManager \<Rightarrow> QString \<Rightarrow> TransferStatus option" where
  "status_of m tid = map_option m_status (map_of (m_transferSessions m) tid)"

text \<open>
  The status that the session of an id has when a step has returned.
\<close>

definition status_after :: "Step \<Rightarrow> QString \<Rightarrow> Fatal + TransferStatus option" where
  "status_after r tid = (case r of Inl e \<Rightarrow> Inl e | Inr (m, out) \<Rightarrow> Inr (status_of m tid))"

text \<open>
  The frames of the peer that the two handlers read.
\<close>

definition file_transfer_response :: "QString \<Rightarrow> QString \<Rightarrow> QString \<Rightarrow> QJsonObject" where
  "file_transfer_response tid status message =
     [(''type'', JString ''file_transfer_response''), (''transfer_id'', JString tid),
      (''status'', JString status), (''message'', JString message)]"

definition transfer_status_update :: "QString \<Rightarrow> QString \<Rightarrow> QString \<Rightarrow> QJsonObject" where
  "transfer_status_update tid status message =
     [(''type'', JString ''transfer_status_update''), (''transfer_id'', JString tid),
      (''status'', JString status), (''message'', JString message)]"

text \<open>
  A connected manager holding the session of the upload \<open>t-1\<close> after all three chunks
  were acknowledged: the worker has stopped running and has set the session to
  \<open>Completed\<close>. Worker and thread are still in their tables, and the thread runs its
  event loop: nothing is connected to \<open>onTransferWorkerFinished\<close>, the only slot besides
  \<open>cancelTransfer\<close> that removes them.
\<close>

definition manager_completed :: FileTransferManager where
  "manager_completed =
     manager_default\<lparr> m_isConnected := True,
       m_transferSessions :=
         [(''t-1'', (FileTransferSession_new 65536 request_130KiB)
                      \<lparr> m_status := Completed,
                        m_progress := (m_progress (FileTransferSession_new 65536 request_130KiB))
                           \<lparr> bytesTransferred := 133120, percentage := 100 \<rparr>,
                        m_completedChunks := 3 \<rparr>)],
       m_transferWorkers :=
         [(''t-1'', (FileTransferWorker_new 65536 (FileTransferSession_new 65536 request_130KiB))
                      \<lparr> w_currentChunkIndex := 2, w_completedChunks := 3,
                        w_completedChunkIndices := {0, 1, 2} \<rparr>)],
       m_transferThreads := [(''t-1'', \<lparr> t_isRunning = True \<rparr>)] \<rparr>"

text \<open>
  A connected manager holding the session of an upload that the peer rejected before it
  was started: no worker and no thread exist for it.
\<close>

definition manager_rejected :: FileTransferManager where
  "manager_rejected =
     manager_default\<lparr> m_isConnected := True,
       m_transferSessions :=
         [(''t-1'', (FileTransferSession_new 65536 request_130KiB)
                      \<lparr> m_status := Failed, m_error := ''not now'' \<rparr>)] \<rparr>"

text \<open>
  The relation between the attempt counter and the reconnect timer that every slot of
  the connection management keeps.
\<close>

definition reconnect_inv :: "FileTransferManager \<Rightarrow> bool" where
  "reconnect_inv m =
     (0 \<le> m_reconnectAttempts m \<and> m_reconnectAttempts m \<le> MAX_RECONNECT_ATTEMPTS \<and>
      (m_reconnectTimer m \<longrightarrow> m_reconnectAttempts m < MAX_RECONNECT_ATTEMPTS))"

subsection \<open>Binary chunk frames\<close>

text \<open>
  The header length that \<open>onWebSocketBinaryMessageReceived\<close> reads from the first four
  bytes: each byte is converted to \<open>unsigned char\<close>, shifted and combined with \<open>|\<close> in
  32-bit arithmetic, and the result is stored in an \<open>int\<close>. \<open>bigEndian32\<close> is the same
  four bytes read as an unsigned big-endian number.
\<close>

definition headerLength_of :: "QByteArray \<Rightarrow> int" where
  "headerLength_of d =
     sint ((push_bit 24 (ucast (d ! 0)) OR push_bit 16 (ucast (d ! 1)) OR
            push_bit 8 (ucast (d ! 2)) OR ucast (d ! 3)) :: 32 word)"

definition bigEndian32 :: "QByteArray \<Rightarrow> int" where
  "bigEndian32 d =
     uint (d ! 0) * 2 ^ 24 + uint (d ! 1) * 2 ^ 16 + uint (d ! 2) * 2 ^ 8 + uint (d ! 3)"

datatype DecodeError = MessageTooShort | InvalidHeaderLength | HeaderParseError

text \<open>
  The decoding part of \<open>onWebSocketBinaryMessageReceived\<close>: each early return of the
  source is an error value, and the result is the \<open>FileChunk\<close> that the function builds.
  \<open>fromJson\<close> stands for \<open>QJsonDocument::fromJson\<close>, with \<open>None\<close> for a parse error.
\<close>

definition decodeChunk :: "(QByteArray \<Rightarrow> QJsonDocument option) \<Rightarrow> QByteArray \<Rightarrow> DecodeError + FileChunk" where
  "decodeChunk fromJson d =
     (if int (length d) < 4 then Inl MessageTooShort
      else
        (let headerLength = headerLength_of d in
         if headerLength > int (length d) - 4 then Inl InvalidHeaderLength
         else
           (let headerData = mid d 4 headerLength;
                chunkData = mid d (4 + headerLength) (- 1)
            in case fromJson headerData of
                 None \<Rightarrow> Inl HeaderParseError
               | Some headerDoc \<Rightarrow>
                   (let header = object headerDoc in
                    Inr \<lparr> chunk_transferId = toString (member_value header ''transfer_id''),
                          chunkIndex = toInt (member_value header ''chunk_index''),
                          chunk_data = chunkData,
                          chunk_checksum = toString (member_value header ''checksum''),
                          isLast = toBool (member_value header ''is_last'') \<rparr>))))"

definition onWebSocketBinaryMessageReceived ::
  "(QByteArray \<Rightarrow> QJsonDocument option) \<Rightarrow> FileTransferManager \<Rightarrow> QByteArray \<Rightarrow> Effect list" where
  "onWebSocketBinaryMessageReceived fromJson m d =
     (case decodeChunk fromJson d of
        Inl _ \<Rightarrow> []
      | Inr chunk \<Rightarrow>
          (if map_of (m_transferWorkers m) (chunk_transferId chunk) \<noteq> None
           then [Emit_chunkReceived (chunk_transferId chunk) (chunkIndex chunk)]
           else []))"

text \<open>
  \<open>sendBinaryChunk\<close>: the header object (a \<open>QJsonObject\<close> keeps its members sorted by
  key), its compact JSON text (\<open>toJson\<close> stands for \<open>QJsonDocument::toJson(Compact)\<close>),
  and the frame made of the four bytes of the header length, the header and the payload.
\<close>

definition chunk_header :: "FileChunk \<Rightarrow> QJsonObject" where
  "chunk_header chunk =
     [(''checksum'', JString (chunk_checksum chunk)),
      (''chunk_index'', JInt (chunkIndex chunk)),
      (''is_last'', JBool (isLast chunk)),
      (''transfer_id'', JString (chunk_transferId chunk))]"

definition encodeChunk :: "(QJsonDocument \<Rightarrow> QByteArray) \<Rightarrow> FileChunk \<Rightarrow> QByteArray" where
  "encodeChunk toJson chunk =
     (let headerData = toJson (DocObject (chunk_header chunk));
          headerLength = (word_of_int (int (length headerData)) :: 32 word)
      in [ucast (drop_bit 24 headerLength AND 255), ucast (drop_bit 16 headerLength AND 255),
          ucast (drop_bit 8 headerLength AND 255), ucast (headerLength AND 255)] @
         headerData @ chunk_data chunk)"

definition sendBinaryChunk ::
  "(QJsonDocument \<Rightarrow> QByteArray) \<Rightarrow> FileTransferManager \<Rightarrow> FileChunk \<Rightarrow> Effect list" where
  "sendBinaryChunk toJson m chunk =
     (if \<not> m_isConnected m then [] else [Socket_sendBinary (encodeChunk toJson chunk)])"

subsection \<open>A writer and a parser of compact JSON for the examples\<close>

text \<open>
  The JSON library is Qt's; the properties below hold for any writer and parser. To run
  the frame code on concrete bytes, the examples use this small writer and parser of
  compact JSON for objects whose members are strings, integers, booleans or null.
\<close>

definition bytes_of :: "string \<Rightarrow> QByteArray" where
  "bytes_of s = map (\<lambda>c. of_nat (of_char c)) s"

definition string_of :: "QByteArray \<Rightarrow> string" where
  "string_of bs = map (\<lambda>b. char_of (unat b)) bs"

definition json_string :: "string \<Rightarrow> string" where
  "json_string s =
     [CHR 0x22] @ concat (map (\<lambda>c. if c = CHR 0x22 \<or> c = CHR 0x5C then [CHR 0x5C, c] else [c]) s) @
     [CHR 0x22]"

fun json_value :: "QJsonValue \<Rightarrow> string" where
  "json_value (JString s) = json_string s"
| "json_value (JInt i) = QString_number i"
| "json_value (JBool b) = (if b then ''true'' else ''false'')"
| "json_value JOther = ''null''"

fun json_members :: "QJsonObject \<Rightarrow> string" where
  "json_members [] = []"
| "json_members [(k, v)] = json_string k @ '':'' @ json_value v"
| "json_members ((k, v) # ms) = json_string k @ '':'' @ json_value v @ '','' @ json_members ms"

fun compact_toJson :: "QJsonDocument \<Rightarrow> QByteArray" where
  "compact_toJson (DocObject obj) = bytes_of (''{'' @ json_members obj @ ''}'')"
| "compact_toJson DocArray = bytes_of ''[]''"

fun string_body :: "string \<Rightarrow> (string \<times> string) option" where
  "string_body [] = None"
| "string_body [c] = (if c = CHR 0x22 then Some ([], []) else None)"
| "string_body (c # e # cs) =
     (if c = CHR 0x22 then Some ([], e # cs)
      else if c = CHR 0x5C then map_option (\<lambda>(s, r). (e # s, r)) (string_body cs)
      else map_option (\<lambda>(s, r). (c # s, r)) (string_body (e # cs)))"

definition is_digit :: "char \<Rightarrow> bool" where
  "is_digit c = (48 \<le> (of_char c :: nat) \<and> (of_char c :: nat) \<le> 57)"

definition digits_value :: "string \<Rightarrow> int" where
  "digits_value ds = foldl (\<lambda>n c. 10 * n + (int (of_char c) - 48)) 0 ds"

definition parse_value :: "string \<Rightarrow> (QJsonValue \<times> string) option" where
  "parse_value s =
     (case s of
        [] \<Rightarrow> None
      | c # cs \<Rightarrow>
          if c = CHR 0x22 then map_option (\<lambda>(t, r). (JString t, r)) (string_body cs)
          else if take 4 s = ''true'' then Some (JBool True, drop 4 s)
          else if take 5 s = ''false'' then Some (JBool False, drop 5 s)
          else if take 4 s = ''null'' then Some (JOther, drop 4 s)
          else if c = CHR ''-'' \<and> takeWhile is_digit cs \<noteq> []
          then Some (JInt (- digits_value (takeWhile is_digit cs)), dropWhile is_digit cs)
          else if takeWhile is_digit s \<noteq> []
          then Some (JInt (digits_value (takeWhile is_digit s)), dropWhile is_digit s)
          else None)"

fun parse_members :: "nat \<Rightarrow> string \<Rightarrow> (QJsonObject \<times> string) option" where
  "parse_members 0 s = None"
| "parse_members (Suc fuel) s =
     (case s of
        c # cs \<Rightarrow>
          (if c \<noteq> CHR 0x22 then None
           else case string_body cs of
                  None \<Rightarrow> None
                | Some (k, r1) \<Rightarrow>
                    (case r1 of
                       c1 # r2 \<Rightarrow>
                         (if c1 \<noteq> CHR '':'' then None
                          else case parse_value r2 of
                                 None \<Rightarrow> None
                               | Some (v, r3) \<Rightarrow>
                                   (case r3 of
                                      c3 # r4 \<Rightarrow>
                                        (if c3 = CHR '','' then
                                           map_option (\<lambda>(ms, r). ((k, v) # ms, r))
                                             (parse_members fuel r4)
                                         else Some ([(k, v)], r3))
                                    | [] \<Rightarrow> Some ([(k, v)], [])))
                     | [] \<Rightarrow> None))
      | [] \<Rightarrow> None)"

definition compact_fromJson :: "QByteArray \<Rightarrow> QJsonDocument option" where
  "compact_fromJson bs =
     (let s = string_of bs in
      if s = ''{}'' then Some (DocObject [])
      else if s = ''[]'' then Some DocArray
      else case s of
             c # cs \<Rightarrow>
               (if c \<noteq> CHR ''{'' then None
                else case parse_members (length cs) cs of
                       Some (ms, r) \<Rightarrow> (if r = ''}'' then Some (DocObject ms) else None)
                     | None \<Rightarrow> None)
           | [] \<Rightarrow> None)"

definition chunk_example :: FileChunk where
  "chunk_example =
     \<lparr> chunk_transferId = ''t-1'', chunkIndex = 2, chunk_data = [222, 173, 190, 239],
       chunk_checksum = ''5f78c332'', isLast = True \<rparr>"

definition frame_negative_length :: QByteArray where
  "frame_negative_length = [255, 255, 255, 255] @ bytes_of ''{}''"

section \<open>Properties\<close>

subsection \<open>Integer conversions and ceiling division\<close>

lemma to_int_id: "- (2^31) \<le> x \<Longrightarrow> x < 2^31 \<Longrightarrow> to_int x = x"
  by (simp add: to_int_def signed_take_bit_int_eq_self)

lemma to_qint64_id: "- (2^63) \<le> x \<Longrightarrow> x < 2^63 \<Longrightarrow> to_qint64 x = x"
  by (simp add: to_qint64_def signed_take_bit_int_eq_self)

lemma sdiv_nonneg: "0 \<le> a \<Longrightarrow> 0 < b \<Longrightarrow> a sdiv b = a div (b::int)"
  by (simp add: signed_divide_int_def sgn_if)

lemma ceil_aux:
  assumes "0 < (cs::int)"
  shows "(n + cs - 1) div cs = (if n mod cs = 0 then n div cs else n div cs + 1)"
proof -
  define q where "q = n div cs"
  define r where "r = n mod cs"
  have n: "n = cs * q + r" by (simp add: q_def r_def)
  have r: "0 \<le> r" "r < cs" using assms by (simp_all add: r_def)
  show ?thesis
  proof (cases "r = 0")
    case True
    have "(cs * q + (cs - 1)) div cs = q + (cs - 1) div cs"
      using assms by simp
    moreover have "(cs - 1) div cs = 0" using assms by (simp add: div_pos_pos_trivial)
    ultimately show ?thesis using True n unfolding q_def[symmetric] r_def[symmetric]
      by (simp add: algebra_simps)
  next
    case False
    have "cs * q + r + cs - 1 = cs * (q + 1) + (r - 1)" by (simp add: algebra_simps)
    moreover have "(cs * (q + 1) + (r - 1)) div cs = (q + 1) + (r - 1) div cs"
      using assms by simp
    moreover have "(r - 1) div cs = 0" using assms r False by (simp add: div_pos_pos_trivial)
    ultimately show ?thesis using False n unfolding q_def[symmetric] r_def[symmetric]
      by (simp add: algebra_simps)
  qed
qed

lemma ceil_div:
  assumes "0 < (cs::int)"
  shows "(n + cs - 1) div cs = \<lceil>real_of_int n / real_of_int cs\<rceil>"
proof -
  have "\<lceil>real_of_int n / real_of_int cs\<rceil> = - (- n div cs)"
    by (rule ceiling_divide_eq_div)
  also have "\<dots> = (if n mod cs = 0 then n div cs else n div cs + 1)"
    using assms by (simp add: zdiv_zminus1_eq_if)
  finally show ?thesis using ceil_aux[OF assms, of n] by simp
qed

lemma totalChunksFor_exact:
  assumes "0 < n" "0 < cs" "n + cs < 2^63" "(n + cs - 1) div cs < 2^31"
  shows "totalChunksFor cs n = (n + cs - 1) div cs"
proof -
  have a: "to_qint64 (n + cs) = n + cs" using assms by (intro to_qint64_id) auto
  have b: "to_qint64 (n + cs - 1) = n + cs - 1" using assms by (intro to_qint64_id) auto
  have c: "(n + cs - 1) sdiv cs = (n + cs - 1) div cs" using assms by (intro sdiv_nonneg) auto
  have d: "0 \<le> (n + cs - 1) div cs" using assms by (simp add: pos_imp_zdiv_nonneg_iff)
  have e: "to_int ((n + cs - 1) div cs) = (n + cs - 1) div cs" using assms d by (intro to_int_id) auto
  show ?thesis using assms by (simp add: totalChunksFor_def a b c e)
qed

lemma ceil_times_ge:
  assumes "0 < (cs::int)"
  shows "n \<le> ((n + cs - 1) div cs) * cs"
proof -
  have e: "cs * (n div cs) + n mod cs = n" by (rule mult_div_mod_eq)
  have l: "n mod cs < cs" using assms by simp
  show ?thesis
  proof (cases "n mod cs = 0")
    case True
    then show ?thesis using e ceil_aux[OF assms, of n] by (simp add: mult.commute)
  next
    case False
    have "n \<le> cs * (n div cs) + cs" using e l by linarith
    then show ?thesis using False ceil_aux[OF assms, of n] by (simp add: algebra_simps)
  qed
qed


subsection \<open>Chunk count\<close>

text \<open>
  Claim C6, as amended. For a request of size \<open>N > 0\<close> whose chunk count fits the
  \<open>int\<close> member that stores it (and whose intermediate sum \<open>N + CHUNK_SIZE\<close> fits
  \<open>qint64\<close>), the constructors of session and worker both compute
  \<open>(N + CHUNK_SIZE - 1) div CHUNK_SIZE\<close> chunks, which is the ceiling of
  \<open>N / CHUNK_SIZE\<close>.
\<close>

theorem total_chunks_ceiling:
  assumes "0 < fileSize r" "0 < cs" "fileSize r + cs < 2^63"
          "(fileSize r + cs - 1) div cs < 2^31"
  shows "m_totalChunks (FileTransferSession_new cs r) = (fileSize r + cs - 1) div cs \<and>
         w_totalChunks (FileTransferWorker_new cs (FileTransferSession_new cs r)) =
           (fileSize r + cs - 1) div cs \<and>
         (fileSize r + cs - 1) div cs = \<lceil>real_of_int (fileSize r) / real_of_int cs\<rceil>"
  using totalChunksFor_exact[OF assms] ceil_div[OF assms(2), of "fileSize r"]
  by (simp add: FileTransferSession_new_def FileTransferWorker_new_def)


text \<open>
  Without the bound the equation fails: with 64 KiB chunks a request of \<open>2^47\<close> bytes has
  \<open>2^31\<close> chunks, and the \<open>int\<close> member holds \<open>-2^31\<close>.
\<close>

theorem total_chunks_ceiling_witness:
  "0 < fileSize request_130KiB \<and> (0::int) < 65536 \<and>
   m_totalChunks (FileTransferSession_new 65536 request_130KiB) = 3 \<and>
   w_totalChunks (FileTransferWorker_new 65536 (FileTransferSession_new 65536 request_130KiB)) = 3 \<and>
   \<lceil>real_of_int (fileSize request_130KiB) / real_of_int 65536\<rceil> = 3"
  using total_chunks_ceiling [of request_130KiB 65536]
  by (simp add: request_130KiB_def)

theorem total_chunks_counterexample:
  "0 < fileSize request_128TiB \<and>
   m_totalChunks (FileTransferSession_new 65536 request_128TiB) = - 2147483648 \<and>
   w_totalChunks (FileTransferWorker_new 65536 (FileTransferSession_new 65536 request_128TiB)) = - 2147483648 \<and>
   (fileSize request_128TiB + 65536 - 1) div 65536 = 2147483648"
  by (simp add: request_128TiB_def request_130KiB_def FileTransferSession_new_def
      FileTransferWorker_new_def totalChunksFor_def to_int_def to_qint64_def)


subsection \<open>Rounding to \<open>double\<close>\<close>

text \<open>
  \<open>exponent\<close> brackets a positive number between two powers of 2, rounding moves a
  number by at most half a unit in the last place, and so \<open>round_double\<close> has a
  relative error of at most \<open>2 ^ - 53\<close> on every number that is not below the smallest
  normal \<open>double\<close>.
\<close>

lemma exponent_bounds:
  "0 < x \<Longrightarrow> 2 powi exponent x \<le> x \<and> x < 2 powi (exponent x + 1)"
proof (induction x rule: exponent.induct)
  case (1 x)
  show ?case
  proof (cases "2 \<le> x")
    case True
    then have e: "exponent x = exponent (x / 2) + 1" by (simp add: exponent.simps)
    have "0 < x / 2" using True by simp
    from "1.IH"(1)[OF True this]
    have "2 powi exponent (x / 2) \<le> x / 2" "x / 2 < 2 powi (exponent (x / 2) + 1)" by auto
    then show ?thesis unfolding e by (simp_all add: power_int_add)
  next
    case False
    show ?thesis
    proof (cases "x < 1")
      case True
      then have e: "exponent x = exponent (x * 2) - 1"
        using False "1.prems" by (simp add: exponent.simps)
      have c: "0 < x \<and> x < 1" using True "1.prems" by simp
      have "0 < x * 2" using "1.prems" by simp
      from "1.IH"(2)[OF False c this]
      have "2 powi exponent (x * 2) \<le> x * 2" "x * 2 < 2 powi (exponent (x * 2) + 1)" by auto
      then show ?thesis unfolding e by (simp_all add: power_int_diff power_int_add)
    next
      case x1: False
      then have "exponent x = 0" using False by (simp add: exponent.simps)
      then show ?thesis using False x1 by simp
    qed
  qed
qed

lemma round_half_even_error: "\<bar>of_int (round_half_even y) - y\<bar> \<le> 1 / 2"
  unfolding round_half_even_def Let_def by (auto; linarith)

lemma round_double_error:
  assumes "2 powi (- 1022) \<le> \<bar>x\<bar>"
  shows "\<bar>round_double x - x\<bar> \<le> \<bar>x\<bar> / 2 ^ 53"
proof -
  have pos: "0 < \<bar>x\<bar>" using assms zero_less_power_int[of "2::real" "- 1022"] by linarith
  let ?e = "exponent \<bar>x\<bar>"
  note b = exponent_bounds[OF pos]
  have "(2::real) powi (- 1022) < 2 powi (?e + 1)" using assms b by linarith
  then have "- 1022 < ?e + 1"
    by (metis linorder_not_le one_le_numeral power_int_increasing)
  then have m: "max ?e (- 1022) = ?e" by simp
  let ?s = "(2::real) powi (?e - 52)"
  have s: "0 < ?s" by (simp add: zero_less_power_int)
  have inv: "(2::real) powi (52 - ?e) * ?s = 1"
    by (simp add: power_int_diff)
  have "round_double x - x = (of_int (round_half_even (x * 2 powi (52 - ?e))) - x * 2 powi (52 - ?e)) * ?s"
    using inv by (simp add: round_double_def Let_def m algebra_simps)
  then have "\<bar>round_double x - x\<bar> = \<bar>of_int (round_half_even (x * 2 powi (52 - ?e))) - x * 2 powi (52 - ?e)\<bar> * ?s"
    using s by (simp add: abs_mult)
  also have "\<dots> \<le> (1 / 2) * ?s"
    using round_half_even_error s by (intro mult_right_mono) auto
  also have "\<dots> = 2 powi ?e / 2 ^ 53"
    by (simp add: power_int_diff)
  also have "\<dots> \<le> \<bar>x\<bar> / 2 ^ 53"
    using b by (simp add: divide_right_mono)
  finally show ?thesis .
qed

lemma round_double_0: "round_double 0 = 0"
  by (simp add: round_double_def round_half_even_def exponent.simps)

lemma round_double_1: "round_double 1 = 1"
  by (simp add: round_double_def round_half_even_def exponent.simps)

lemma round_double_100: "round_double 100 = 100"
  by (simp add: round_double_def round_half_even_def exponent.simps)

lemma tiny: "(2::real) powi (- 1022) \<le> 1 / 2 ^ 70"
proof -
  have "(2::real) powi (- 1022) \<le> 2 powi (- 70)"
    by (rule power_int_increasing) simp_all
  then show ?thesis by (simp add: power_int_minus_divide)
qed

lemma round_double_between:
  assumes x: "1 / 2 ^ 70 \<le> x" and u: "u = 1 / 2 ^ 53"
  shows "x * (1 - u) \<le> round_double x" "round_double x \<le> x * (1 + u)"
proof -
  have t: "2 powi (- 1022) \<le> \<bar>x\<bar>" using tiny x by linarith
  have "(0::real) < 1 / 2 ^ 70" by simp
  then have pos: "0 < x" using x by linarith
  have "\<bar>round_double x - x\<bar> \<le> \<bar>x\<bar> / 2 ^ 53" by (rule round_double_error[OF t])
  also have "\<dots> = x * u" using pos by (simp add: u)
  finally have e: "\<bar>round_double x - x\<bar> \<le> x * u" .
  show "x * (1 - u) \<le> round_double x" "round_double x \<le> x * (1 + u)"
    using e by (simp_all add: right_diff_distrib distrib_left abs_le_iff)
qed

text \<open>
  The percentage computed from two positive 64-bit counts: a conversion of each count,
  a division and a multiplication, four roundings in all.
\<close>

lemma percentage_error:
  fixes b t :: int
  assumes b: "1 \<le> b" and t: "1 \<le> t" "t < 2 ^ 63"
  shows "\<bar>double_mul (double_div (double_of_qint64 b) (double_of_qint64 t)) 100 -
            100 * real_of_int b / real_of_int t\<bar>
         \<le> (100 * real_of_int b / real_of_int t) / 2 ^ 50"
proof -
  define u :: real where "u = 1 / 2 ^ 53"
  define lo where "lo = 1 - u"
  define hi where "hi = 1 + u"
  note rb = round_double_between[OF _ u_def, folded lo_def hi_def]
  have lohi: "0 < lo" "lo \<le> 1" "1 \<le> hi" "hi \<le> 2" "1 / 2 \<le> lo"
    by (simp_all add: lo_def hi_def u_def)
  let ?b = "real_of_int b" and ?t = "real_of_int t"
  have bpos: "1 \<le> ?b" and tpos: "1 \<le> ?t"
    using b t by simp_all
  have "?t \<le> real_of_int (2 ^ 63)" using t(2) by (intro of_int_le_iff[THEN iffD2]) simp
  then have tle: "?t \<le> 2 ^ 63" by simp
  define B where "B = double_of_qint64 b"
  define T where "T = double_of_qint64 t"
  define Q where "Q = double_div B T"
  define p where "p = double_mul Q 100"
  have c70: "(1::real) / 2 ^ 70 \<le> 1" "(1::real) / 2 ^ 70 \<le> (1 / 2) / 2 ^ 64"
            "(1::real) / 2 ^ 70 \<le> (1 / 2) / 2 ^ 64 * (1 / 2) * 100"
    by simp_all
  have b70: "1 / 2 ^ 70 \<le> ?b" using c70(1) bpos by linarith
  have t70: "1 / 2 ^ 70 \<le> ?t" using c70(1) tpos by linarith
  have B: "?b * lo \<le> B" "B \<le> ?b * hi"
    unfolding B_def double_of_qint64_def by (rule rb[OF b70])+
  have T: "?t * lo \<le> T" "T \<le> ?t * hi"
    unfolding T_def double_of_qint64_def by (rule rb[OF t70])+
  have Bpos: "1 / 2 \<le> B"
  proof -
    have "1 / 2 \<le> 1 * lo" using lohi by simp
    also have "\<dots> \<le> ?b * lo" using bpos lohi by (intro mult_right_mono) auto
    finally show ?thesis using B by linarith
  qed
  have Tpos: "1 / 2 \<le> T"
  proof -
    have "1 / 2 \<le> 1 * lo" using lohi by simp
    also have "\<dots> \<le> ?t * lo" using tpos lohi by (intro mult_right_mono) auto
    finally show ?thesis using T by linarith
  qed
  have Tle: "T \<le> 2 ^ 64"
  proof -
    have "?t * hi \<le> 2 ^ 63 * 2" using tle tpos lohi by (intro mult_mono) auto
    then show ?thesis using T by simp
  qed
  have tlo: "0 < ?t * lo" using tpos lohi by simp
  have BT_hi: "B / T \<le> (?b * hi) / (?t * lo)"
    using B T Bpos tlo by (intro frac_le) auto
  have BT_lo: "(?b * lo) / (?t * hi) \<le> B / T"
  proof -
    have "0 \<le> ?b * lo" using bpos lohi by simp
    moreover have "0 < T" using Tpos by simp
    ultimately show ?thesis using B T by (intro frac_le) auto
  qed
  have BT_ge: "(1 / 2) / 2 ^ 64 \<le> B / T"
    using Bpos Tpos Tle by (intro frac_le) auto
  have BT70: "1 / 2 ^ 70 \<le> B / T" using c70(2) BT_ge by linarith
  have Qb: "(B / T) * lo \<le> Q" "Q \<le> (B / T) * hi"
    unfolding Q_def double_div_def by (rule rb[OF BT70])+
  have Q_ge: "(1 / 2) / 2 ^ 64 * (1 / 2) \<le> Q"
  proof -
    have "0 \<le> B / T" using Bpos Tpos by simp
    then have "(1 / 2) / 2 ^ 64 * (1 / 2) \<le> (B / T) * lo"
      using BT_ge lohi(5) by (intro mult_mono) simp_all
    then show ?thesis using Qb by linarith
  qed
  have "(1 / 2) / 2 ^ 64 * (1 / 2) * 100 \<le> Q * 100"
    using Q_ge by (intro mult_right_mono) auto
  then have Q70: "1 / 2 ^ 70 \<le> Q * 100" using c70(3) by linarith
  have pb: "(Q * 100) * lo \<le> p" "p \<le> (Q * 100) * hi"
    unfolding p_def double_mul_def by (rule rb[OF Q70])+
  let ?x = "100 * ?b / ?t"
  have xpos: "0 < ?x" using bpos tpos by simp
  have up: "p \<le> ?x * (hi * hi * hi / lo)"
  proof -
    have "(B / T) * hi \<le> ((?b * hi) / (?t * lo)) * hi"
      using BT_hi lohi by (intro mult_right_mono) auto
    then have "Q \<le> ((?b * hi) / (?t * lo)) * hi" using Qb(2) by linarith
    then have "Q * (100 * hi) \<le> (((?b * hi) / (?t * lo)) * hi) * (100 * hi)"
      using lohi by (intro mult_right_mono) auto
    moreover have "(((?b * hi) / (?t * lo)) * hi) * (100 * hi) = ?x * (hi * hi * hi / lo)"
      by simp
    moreover have "Q * 100 * hi = Q * (100 * hi)" by simp
    ultimately show ?thesis using pb(2) by linarith
  qed
  have down: "?x * (lo * lo * lo / hi) \<le> p"
  proof -
    have "((?b * lo) / (?t * hi)) * lo \<le> (B / T) * lo"
      using BT_lo lohi by (intro mult_right_mono) auto
    then have "((?b * lo) / (?t * hi)) * lo \<le> Q" using Qb(1) by linarith
    then have "(((?b * lo) / (?t * hi)) * lo) * (100 * lo) \<le> Q * (100 * lo)"
      using lohi by (intro mult_right_mono) auto
    moreover have "(((?b * lo) / (?t * hi)) * lo) * (100 * lo) = ?x * (lo * lo * lo / hi)"
      by simp
    moreover have "Q * 100 * lo = Q * (100 * lo)" by simp
    ultimately show ?thesis using pb(1) by linarith
  qed
  have n1: "hi * hi * hi / lo \<le> 1 + 1 / 2 ^ 50"
    by (simp add: hi_def lo_def u_def field_simps)
  have n2: "1 - 1 / 2 ^ 50 \<le> lo * lo * lo / hi"
    by (simp add: hi_def lo_def u_def field_simps)
  have "?x * (hi * hi * hi / lo) \<le> ?x * (1 + 1 / 2 ^ 50)"
    using n1 xpos by (intro mult_left_mono) auto
  then have P1: "p \<le> ?x * (1 + 1 / 2 ^ 50)" using up by linarith
  have "?x * (1 - 1 / 2 ^ 50) \<le> ?x * (lo * lo * lo / hi)"
    using n2 xpos by (intro mult_left_mono) auto
  then have P2: "?x * (1 - 1 / 2 ^ 50) \<le> p" using down by linarith
  have "\<bar>p - ?x\<bar> \<le> ?x / 2 ^ 50"
    using P1 P2 by (simp add: abs_le_iff right_diff_distrib distrib_left)
  then show ?thesis by (simp add: p_def Q_def B_def T_def)
qed


lemma percentage_of_nothing:
  "double_mul (double_div (double_of_qint64 0) (double_of_qint64 t)) 100 = 0"
  by (simp add: double_mul_def double_div_def double_of_qint64_def round_double_0)

lemma percentage_of_everything:
  assumes "1 \<le> t"
  shows "double_mul (double_div (double_of_qint64 t) (double_of_qint64 t)) 100 = 100"
proof -
  have "(1::real) / 2 ^ 70 \<le> 1" by simp
  then have "1 / 2 ^ 70 \<le> real_of_int t" using assms by linarith
  from round_double_between(1)[OF this refl]
  have "real_of_int t * (1 - 1 / 2 ^ 53) \<le> double_of_qint64 t"
    by (simp only: double_of_qint64_def)
  moreover have "0 < real_of_int t * (1 - 1 / 2 ^ 53)" using assms by simp
  ultimately have "double_of_qint64 t \<noteq> 0" by linarith
  then show ?thesis
    by (simp add: double_mul_def double_div_def round_double_1 round_double_100)
qed

subsection \<open>Chunk progress\<close>

text \<open>
  Claim C7, as amended. For a session as its constructor leaves request, chunk count and
  total bytes, with a positive chunk count that fits \<open>int\<close>, and for every non-negative
  \<open>int\<close> count \<open>completed\<close>, \<open>updateChunkProgress(completed)\<close> sets
  \<open>bytesTransferred\<close> to \<open>min (completed * CHUNK_SIZE) fileSize\<close>; \<open>totalBytes\<close> is
  positive and \<open>percentage\<close> becomes the \<open>double\<close> that the conversion of the two
  counts, their division and the multiplication by \<open>100.0\<close> give, which differs from
  \<open>100 * bytesTransferred / totalBytes\<close> by at most the \<open>2 ^ 50\<close>-th part of that
  number.
\<close>

theorem chunk_progress:
  assumes cs: "0 < cs" "cs < 2^31"
    and inv: "session_constructed cs s"
    and tc: "m_totalChunks s > 0"
    and fit: "fileSize (m_request s) + cs < 2^63"
             "(fileSize (m_request s) + cs - 1) div cs < 2^31"
    and c: "0 \<le> c" "c < 2^31"
  shows "bytesTransferred (m_progress (updateChunkProgress cs c s)) =
           min (c * cs) (fileSize (m_request s)) \<and>
         totalBytes (m_progress (updateChunkProgress cs c s)) > 0 \<and>
         percentage (m_progress (updateChunkProgress cs c s)) =
           double_mul
             (double_div
                (double_of_qint64 (bytesTransferred (m_progress (updateChunkProgress cs c s))))
                (double_of_qint64 (totalBytes (m_progress (updateChunkProgress cs c s)))))
             100 \<and>
         \<bar>percentage (m_progress (updateChunkProgress cs c s)) -
            100 * real_of_int (bytesTransferred (m_progress (updateChunkProgress cs c s))) /
              real_of_int (totalBytes (m_progress (updateChunkProgress cs c s)))\<bar>
         \<le> (100 * real_of_int (bytesTransferred (m_progress (updateChunkProgress cs c s))) /
              real_of_int (totalBytes (m_progress (updateChunkProgress cs c s)))) / 2 ^ 50"
proof -
  let ?n = "fileSize (m_request s)"
  let ?u = "updateChunkProgress cs c s"
  have npos: "0 < ?n"
    using inv tc by (auto simp: session_constructed_def totalChunksFor_def split: if_splits)
  have T: "m_totalChunks s = (?n + cs - 1) div cs"
    using inv totalChunksFor_exact[OF npos cs(1) fit] by (simp add: session_constructed_def)
  have tb: "totalBytes (m_progress s) = ?n" using inv by (simp add: session_constructed_def)
  have "0 \<le> c * cs" using c cs by simp
  moreover have "c * cs < 2^31 * 2^31" using c cs by (intro mult_strict_mono) auto
  ultimately have q: "to_qint64 (c * cs) = c * cs" by (intro to_qint64_id) auto
  have ge: "c = m_totalChunks s \<Longrightarrow> ?n \<le> c * cs" using T ceil_times_ge[OF cs(1), of ?n] by simp
  have b: "bytesTransferred (m_progress ?u) = min (c * cs) ?n"
    using tc npos tb q ge by (auto simp: updateChunkProgress_def Let_def min_def)
  have t: "totalBytes (m_progress ?u) = ?n"
    using tc tb by (simp add: updateChunkProgress_def Let_def)
  have p: "percentage (m_progress ?u) =
             double_mul (double_div (double_of_qint64 (bytesTransferred (m_progress ?u)))
                           (double_of_qint64 (totalBytes (m_progress ?u)))) 100"
    using tc tb npos by (simp add: updateChunkProgress_def Let_def)
  have tlt: "?n < 2 ^ 63" using fit(1) cs(1) by linarith
  have err: "\<bar>double_mul (double_div (double_of_qint64 (min (c * cs) ?n)) (double_of_qint64 ?n)) 100 -
               100 * real_of_int (min (c * cs) ?n) / real_of_int ?n\<bar>
             \<le> (100 * real_of_int (min (c * cs) ?n) / real_of_int ?n) / 2 ^ 50"
  proof (cases "min (c * cs) ?n = 0")
    case True
    then show ?thesis by (simp add: percentage_of_nothing)
  next
    case False
    then have "1 \<le> min (c * cs) ?n" using \<open>0 \<le> c * cs\<close> npos by linarith
    moreover have "1 \<le> ?n" using npos by linarith
    ultimately show ?thesis using tlt by (rule percentage_error)
  qed
  show ?thesis
    unfolding p unfolding b t using npos err by simp
qed

text \<open>
  The two counts 131072 and 133120 are \<open>double\<close>s; their quotient \<open>64 / 65\<close> and its
  product with 100 are not, and are rounded.
\<close>

lemma double_examples:
  "double_of_qint64 131072 = 131072"
  "double_of_qint64 133120 = 133120"
  "double_div 131072 133120 = 277144592453569 / 281474976710656"
  "double_mul (277144592453569 / 281474976710656) 100 = 6928614811339225 / 70368744177664"
  by (simp_all add: double_of_qint64_def double_div_def double_mul_def round_double_def
      round_half_even_def exponent.simps)

theorem chunk_progress_witness:
  "m_totalChunks (FileTransferSession_new 65536 request_130KiB) > 0 \<and>
   bytesTransferred (m_progress (updateChunkProgress 65536 2 (FileTransferSession_new 65536 request_130KiB))) = 131072 \<and>
   totalBytes (m_progress (updateChunkProgress 65536 2 (FileTransferSession_new 65536 request_130KiB))) = 133120 \<and>
   percentage (m_progress (updateChunkProgress 65536 2 (FileTransferSession_new 65536 request_130KiB))) =
     6928614811339225 / 70368744177664"
proof -
  have c: "session_constructed 65536 (FileTransferSession_new 65536 request_130KiB)"
    by (simp add: session_constructed_def FileTransferSession_new_def)
  have t: "m_totalChunks (FileTransferSession_new 65536 request_130KiB) = 3"
    by (simp add: request_130KiB_def FileTransferSession_new_def
      totalChunksFor_def to_int_def to_qint64_def)
  have r: "fileSize (m_request (FileTransferSession_new 65536 request_130KiB)) = 133120"
   and tb: "totalBytes (m_progress (updateChunkProgress 65536 2 (FileTransferSession_new 65536 request_130KiB))) = 133120"
    by (simp_all add: request_130KiB_def FileTransferSession_new_def updateChunkProgress_def Let_def)
  show ?thesis
    using chunk_progress [of 65536 "FileTransferSession_new 65536 request_130KiB" 2, OF _ _ c]
    by (simp add: t r tb double_examples)
qed

text \<open>
  So after two of the three chunks the percentage is not the exact quotient
  \<open>100 * 131072 / 133120\<close>, which no \<open>double\<close> holds.
\<close>

lemma percentage_is_rounded:
  "percentage (m_progress (updateChunkProgress 65536 2 (FileTransferSession_new 65536 request_130KiB))) \<noteq>
     100 * 131072 / 133120"
  by (simp add: request_130KiB_def FileTransferSession_new_def updateChunkProgress_def Let_def
      totalChunksFor_def to_int_def to_qint64_def double_examples)

text \<open>
  When all chunks are completed, the two counts are equal and the percentage is exactly
  100.
\<close>

lemma progress_of_a_completed_transfer:
  assumes cs: "0 < cs" "cs < 2^31"
    and inv: "session_constructed cs s"
    and tc: "m_totalChunks s > 0"
    and fit: "fileSize (m_request s) + cs < 2^63"
             "(fileSize (m_request s) + cs - 1) div cs < 2^31"
  shows "bytesTransferred (m_progress (updateChunkProgress cs (m_totalChunks s) s)) =
           fileSize (m_request s) \<and>
         percentage (m_progress (updateChunkProgress cs (m_totalChunks s) s)) = 100"
proof -
  let ?n = "fileSize (m_request s)"
  have npos: "0 < ?n"
    using inv tc by (auto simp: session_constructed_def totalChunksFor_def split: if_splits)
  have tb: "totalBytes (m_progress s) = ?n" using inv by (simp add: session_constructed_def)
  have "1 \<le> ?n" using npos by linarith
  from percentage_of_everything[OF this] show ?thesis
    using tc npos tb by (simp add: updateChunkProgress_def Let_def)
qed

text \<open>
  When the chunk count wrapped in the constructor, the special case
  \<open>completed = m_totalChunks\<close> reports the whole file although fewer bytes were moved:
  a request of \<open>2^48 + 1\<close> bytes has a stored chunk count of 1.
\<close>

theorem chunk_progress_counterexample:
  "m_totalChunks (FileTransferSession_new 65536 request_256TiB) = 1 \<and>
   bytesTransferred (m_progress (updateChunkProgress 65536 1
       (FileTransferSession_new 65536 request_256TiB))) = 281474976710657 \<and>
   min (1 * 65536) (fileSize (m_request (FileTransferSession_new 65536 request_256TiB))) = 65536"
  by (simp add: request_256TiB_def request_130KiB_def FileTransferSession_new_def
      updateChunkProgress_def Let_def totalChunksFor_def to_int_def to_qint64_def)

subsection \<open>Chunk retries\<close>








subsection \<open>Remembered decisions and the order of the policy checks\<close>

lemma decisions_append: "decisions (xs @ ys) = decisions xs @ decisions ys"
  by (induction xs rule: decisions.induct) simp_all

lemma dialogs_append: "dialogs (xs @ ys) = dialogs xs @ dialogs ys"
  by (induction xs rule: dialogs.induct) simp_all

lemma decisions_send: "decisions (sendControlMessage m msg) = []"
  by (simp add: sendControlMessage_def)

lemma dialogs_send: "dialogs (sendControlMessage m msg) = []"
  by (simp add: sendControlMessage_def)

lemma processApprovalDecision_seen:
  "decisions (snd (processApprovalDecision m tid a msg)) = [(tid, a, msg)]"
  "dialogs (snd (processApprovalDecision m tid a msg)) = []"
  by (simp_all add: processApprovalDecision_def Let_def decisions_append dialogs_append
      decisions_send dialogs_send)

text \<open>
  Claim C1, as amended. For an inbound request whose id has a remembered decision, the
  extension check and the size check come first (a failure of either denies the
  request), then auto-approval (which allows it); the remembered decision is the outcome
  only when both checks pass, auto-approval is off and \<open>rememberDecisionEnabled\<close> is
  set, and then no dialog is shown. With \<open>rememberDecisionEnabled\<close> off the remembered
  decision is ignored and the dialog is shown. In every case exactly the listed decision
  is announced, and a dialog is shown only in the last case.
\<close>

theorem remembered_decision_order:
  assumes "checkRememberedDecision m (req_id r) = Some d"
  shows "map (\<lambda>(tid, approved, message). (tid, approved))
             (decisions (snd (onTransferRequestReceived m r))) =
           (if \<not> isFileExtensionAllowed m (filename r) \<or> \<not> isFileSizeValid m (fileSize r)
            then [(req_id r, False)]
            else if m_autoApprovalEnabled m then [(req_id r, True)]
            else if m_rememberDecisionEnabled m then [(req_id r, d)]
            else []) \<and>
         (dialogs (snd (onTransferRequestReceived m r)) = [] \<longleftrightarrow>
            \<not> (isFileExtensionAllowed m (filename r) \<and> isFileSizeValid m (fileSize r) \<and>
               \<not> m_autoApprovalEnabled m \<and> \<not> m_rememberDecisionEnabled m))"
proof -
  let ?m1 = "m\<lparr> m_pendingRequests := (m_pendingRequests m)(req_id r \<mapsto> r) \<rparr>"
  have same: "isFileExtensionAllowed ?m1 = isFileExtensionAllowed m"
    "isFileSizeValid ?m1 = isFileSizeValid m"
    "checkRememberedDecision ?m1 = checkRememberedDecision m"
    by (simp_all add: isFileExtensionAllowed_def isFileSizeValid_def
        checkRememberedDecision_def fun_eq_iff)
  have dlg: "decisions (snd (showApprovalDialog ?m1 r)) =
               (if m_rememberDecisionEnabled m
                then [(req_id r, d, if d then ''Auto-approved (remembered)''
                                    else ''Auto-rejected (remembered)'')]
                else [])"
    "dialogs (snd (showApprovalDialog ?m1 r)) = [] \<longleftrightarrow> m_rememberDecisionEnabled m"
    using assms
    by (simp_all add: showApprovalDialog_def same processApprovalDecision_seen Let_def)
  show ?thesis
    by (simp add: onTransferRequestReceived_def Let_def split_beta same dlg
        processApprovalDecision_seen)
qed

theorem remembered_decision_order_witness:
  "checkRememberedDecision (saveRememberedDecision ''t-9'' False manager_default) (req_id request_txt)
     = Some False \<and>
   decisions (snd (onTransferRequestReceived
       (saveRememberedDecision ''t-9'' False manager_default) request_txt)) =
     [(''t-9'', False, ''Auto-rejected (remembered)'')] \<and>
   dialogs (snd (onTransferRequestReceived
       (saveRememberedDecision ''t-9'' False manager_default) request_txt)) = []"
proof -
  have h: "checkRememberedDecision (saveRememberedDecision ''t-9'' False manager_default)
             (req_id request_txt) = Some False"
    by (simp add: checkRememberedDecision_def saveRememberedDecision_def request_txt_def
        request_exe_def)
  have e: "decisions (snd (onTransferRequestReceived
       (saveRememberedDecision ''t-9'' False manager_default) request_txt)) =
     [(''t-9'', False, ''Auto-rejected (remembered)'')]"
    by code_simp
  have v: "isFileExtensionAllowed (saveRememberedDecision ''t-9'' False manager_default)
             (filename request_txt)"
    "isFileSizeValid (saveRememberedDecision ''t-9'' False manager_default) (fileSize request_txt)"
    "\<not> m_autoApprovalEnabled (saveRememberedDecision ''t-9'' False manager_default)"
    "m_rememberDecisionEnabled (saveRememberedDecision ''t-9'' False manager_default)"
    by code_simp+
  have i: "req_id request_txt = ''t-9''"
    by (simp add: request_txt_def request_exe_def)
  show ?thesis
    using remembered_decision_order [OF h] h e v by (simp add: i)
qed

text \<open>
  A remembered approval does not rescue a file with a forbidden extension, and a
  remembered denial does not stop auto-approval.
\<close>

theorem remembered_decision_counterexample:
  "checkRememberedDecision (saveRememberedDecision ''t-9'' True manager_default) (req_id request_exe)
     = Some True \<and>
   decisions (snd (onTransferRequestReceived
       (saveRememberedDecision ''t-9'' True manager_default) request_exe)) =
     [(''t-9'', False, ''File extension not allowed: exe'')] \<and>
   checkRememberedDecision
       (saveRememberedDecision ''t-9'' False (setAutoApprovalEnabled True manager_default))
       (req_id request_txt) = Some False \<and>
   decisions (snd (onTransferRequestReceived
       (saveRememberedDecision ''t-9'' False (setAutoApprovalEnabled True manager_default))
       request_txt)) =
     [(''t-9'', True, ''Auto-approved'')]"
  by code_simp

subsection \<open>Files without an extension\<close>

lemma toLower_Nil: "toLower [] = []"
  by (simp add: toLower_def)

text \<open>
  Claim C10. For a path whose file name has an empty suffix, \<open>validateFile\<close> does not
  look at the allowed extensions and accepts the file when it exists, is a regular file,
  is within the size limit and has no executable MIME type; \<open>isFileExtensionAllowed\<close>
  rejects the same name, the extension it looks up being \<open>.\<close>, which is not in the
  list of allowed extensions.
\<close>

theorem empty_extension_asymmetry:
  assumes "suffix filePath = []"
    and "fi_exists (fs filePath)" "fi_isFile (fs filePath)"
    and "fi_size (fs filePath) \<le> m_maxFileSize m"
    and "\<not> startsWith (fi_mimeName (fs filePath)) ''application/x-executable''"
    and "''.'' \<notin> set (m_allowedExtensions m)"
  shows "validateFile m fs filePath = Inr () \<and> \<not> isFileExtensionAllowed m filePath"
  using assms
  by (simp add: validateFile_def isFileExtensionAllowed_def Let_def toLower_Nil)

theorem empty_extension_asymmetry_witness:
  "suffix ''/home/user/README'' = [] \<and>
   ''.'' \<notin> set (m_allowedExtensions manager_default) \<and>
   validateFile manager_default plain_file ''/home/user/README'' = Inr () \<and>
   \<not> isFileExtensionAllowed manager_default ''/home/user/README''"
proof -
  have a: "suffix ''/home/user/README'' = []" by code_simp
  have b: "fi_exists (plain_file ''/home/user/README'')"
    "fi_isFile (plain_file ''/home/user/README'')"
    "fi_size (plain_file ''/home/user/README'') \<le> m_maxFileSize manager_default"
    "\<not> startsWith (fi_mimeName (plain_file ''/home/user/README'')) ''application/x-executable''"
    by code_simp+
  have c: "''.'' \<notin> set (m_allowedExtensions manager_default)" by code_simp
  show ?thesis
    using empty_extension_asymmetry [of "''/home/user/README''" plain_file manager_default] a b c
    by simp
qed

subsection \<open>Approval time-out\<close>

lemma ticks_keep:
  "d_rememberChecked ((updateTimeoutDisplay ^^ n) d) = d_rememberChecked d \<and>
   d_transferId ((updateTimeoutDisplay ^^ n) d) = d_transferId d"
  by (induction n) (simp_all add: updateTimeoutDisplay_def Let_def)

lemma prompt_dialog:
  assumes "d \<in> set (dialogs (snd (onTransferRequestReceived m r)))"
  shows "d_transferId d = req_id r \<and> \<not> d_rememberChecked d \<and>
         d_timeoutTimer d = (if m_approvalTimeout m > 0
                             then Some (to_int (m_approvalTimeout m * 1000)) else None)"
proof -
  let ?m1 = "m\<lparr> m_pendingRequests := (m_pendingRequests m)(req_id r \<mapsto> r) \<rparr>"
  have "d \<in> set (dialogs (snd (showApprovalDialog ?m1 r)))"
    using assms
    by (simp add: onTransferRequestReceived_def Let_def split_beta processApprovalDecision_seen
        split: if_splits)
  then show ?thesis
    by (auto simp: showApprovalDialog_def Let_def processApprovalDecision_seen
        setRememberOptionEnabled_def setAutoTimeout_def updateTimeoutDisplay_def
        ApprovalDialog_new_def split: option.splits if_splits)
qed

text \<open>
  Let a dialog be shown for an inbound request and let the user not touch it, so that
  only the display timer ticks until the time-out timer fires. Then the request is
  resolved as not approved with the message \<open>Request timed out\<close> and the remembered
  decisions, in memory and in the settings, stay as they were. The dialog's timer runs
  for the manager's \<open>m_approvalTimeout\<close> seconds; \<open>setApprovalTimeout\<close> stores its
  argument but never less than 5, and a manager created without stored settings has a
  time-out of 30 seconds.
\<close>

lemma timeout_of_an_untouched_dialog:
  assumes "d \<in> set (dialogs (snd (onTransferRequestReceived m r)))"
  shows "decisions (snd (onApprovalDialogFinished (fst (onTransferRequestReceived m r))
                      (onTimeout ((updateTimeoutDisplay ^^ n) d)))) =
           [(req_id r, False, ''Request timed out'')] \<and>
         m_rememberedDecisions (fst (onApprovalDialogFinished (fst (onTransferRequestReceived m r))
                      (onTimeout ((updateTimeoutDisplay ^^ n) d)))) = m_rememberedDecisions m \<and>
         RememberedDecisions (m_settings (fst (onApprovalDialogFinished
                      (fst (onTransferRequestReceived m r))
                      (onTimeout ((updateTimeoutDisplay ^^ n) d))))) =
           RememberedDecisions (m_settings m) \<and>
         d_timeoutTimer d = (if m_approvalTimeout m > 0
                             then Some (to_int (m_approvalTimeout m * 1000)) else None) \<and>
         getApprovalTimeout (setApprovalTimeout s m) = (if s < 5 then 5 else s) \<and>
         getApprovalTimeout (FileTransferManager_new empty_settings) = 30"
proof -
  note pd = prompt_dialog[OF assms]
  let ?m1 = "m\<lparr> m_pendingRequests := (m_pendingRequests m)(req_id r \<mapsto> r) \<rparr>"
  have shown: "fst (onTransferRequestReceived m r) = ?m1"
    using assms
    by (auto simp: onTransferRequestReceived_def Let_def split_beta processApprovalDecision_seen
        showApprovalDialog_def split: if_splits option.splits)
  have fin: "onApprovalDialogFinished ?m1 (onTimeout ((updateTimeoutDisplay ^^ n) d)) =
             processApprovalDecision ?m1 (req_id r) False ''Request timed out''"
    using pd ticks_keep[of n d]
    by (simp add: onApprovalDialogFinished_def Let_def onTimeout_def shouldRememberDecision_def)
  show ?thesis
    unfolding shown fin
    using pd
    by (simp add: processApprovalDecision_seen)
       (simp add: processApprovalDecision_def Let_def setApprovalTimeout_def saveSettings_def
          getApprovalTimeout_def FileTransferManager_new_def loadSettings_def empty_settings_def)
qed

text \<open>
  The check box is read when the dialog finishes, whatever finished it: if the user has
  ticked it and then lets the time run out, the denial is remembered under the id of the
  request.
\<close>

lemma timeout_of_a_ticked_dialog:
  assumes "d \<in> set (dialogs (snd (onTransferRequestReceived m r)))"
  shows "decisions (snd (onApprovalDialogFinished (fst (onTransferRequestReceived m r))
                      (onTimeout ((updateTimeoutDisplay ^^ n) (toggleRemember d))))) =
           [(req_id r, False, ''Request timed out'')] \<and>
         m_rememberedDecisions
           (fst (onApprovalDialogFinished (fst (onTransferRequestReceived m r))
                   (onTimeout ((updateTimeoutDisplay ^^ n) (toggleRemember d))))) (req_id r) =
           Some False"
proof -
  have k: "d_rememberChecked ((updateTimeoutDisplay ^^ n) (toggleRemember d))"
          "d_transferId ((updateTimeoutDisplay ^^ n) (toggleRemember d)) = req_id r"
    using prompt_dialog[OF assms] ticks_keep[of n "toggleRemember d"]
    by (simp_all add: toggleRemember_def)
  show ?thesis
    using k
    by (simp add: onApprovalDialogFinished_def Let_def onTimeout_def
        shouldRememberDecision_def processApprovalDecision_seen)
       (simp add: saveRememberedDecision_def processApprovalDecision_def Let_def)
qed

text \<open>
  Claim C8, at a prompt that runs into its time-out after the user ticked "remember" and
  pressed no button. The manager is the default one and the request is for \<open>notes.txt\<close>
  with id \<open>t-9\<close>: one dialog is shown, with the check box visible. The time-out
  resolves the request as not approved with the message \<open>Request timed out\<close>, and a
  denial is saved for \<open>t-9\<close> in memory and in the settings, where nothing was remembered
  before; a later request with that id is rejected as remembered, without a prompt.
\<close>

theorem timeout_remembers_ticked_box:
  "length (dialogs (snd (onTransferRequestReceived manager_default request_txt))) = 1 \<and>
   d_rememberVisible (hd (dialogs (snd (onTransferRequestReceived manager_default request_txt)))) \<and>
   m_rememberedDecisions manager_default ''t-9'' = None \<and>
   decisions (snd (onApprovalDialogFinished
       (fst (onTransferRequestReceived manager_default request_txt))
       (onTimeout (toggleRemember
          (hd (dialogs (snd (onTransferRequestReceived manager_default request_txt)))))))) =
     [(''t-9'', False, ''Request timed out'')] \<and>
   m_rememberedDecisions timed_out_ticked ''t-9'' = Some False \<and>
   RememberedDecisions (m_settings timed_out_ticked) = [(''t-9'', False)] \<and>
   dialogs (snd (onTransferRequestReceived timed_out_ticked request_txt)) = [] \<and>
   decisions (snd (onTransferRequestReceived timed_out_ticked request_txt)) =
     [(''t-9'', False, ''Auto-rejected (remembered)'')]"
  by code_simp

text \<open>
  The minimum of 5 seconds is enforced by \<open>setApprovalTimeout\<close> only: a time-out read
  from the stored settings is taken as it is.
\<close>

lemma stored_timeout_is_not_clamped:
  "getApprovalTimeout (FileTransferManager_new (empty_settings\<lparr> AutoApproval_Timeout := Some 2 \<rparr>)) = 2"
  by code_simp

subsection \<open>Reconnection\<close>

text \<open>
  The attempt counter stays between 0 and 5 and the reconnect timer only runs while the
  counter is below 5, from the constructor on and through every event of the socket and
  the timers. As long as no \<open>connected\<close> event arrives, the counter counts the
  reconnect attempts that were made.
\<close>

lemma reconnect_inv_new: "reconnect_inv (FileTransferManager_new st)"
  by (simp add: reconnect_inv_def FileTransferManager_new_def loadSettings_def Let_def
      MAX_RECONNECT_ATTEMPTS_def)

lemma reconnect_inv_connect: "reconnect_inv m \<Longrightarrow> reconnect_inv (fst (connectToServer url m))"
  by (simp add: reconnect_inv_def connectToServer_def MAX_RECONNECT_ATTEMPTS_def)






text \<open>
  So when the timer fires its function always opens the socket: the branch that emits
  \<open>Failed to reconnect after multiple attempts\<close> is never taken.
\<close>

lemma timer_never_reports_exhaustion:
  assumes "reconnect_inv m"
  shows "snd (transport_step m ReconnectTimerFires) =
           (if m_reconnectTimer m then [Socket_open (m_serverUrl m)] else [])"
  using assms by (simp add: reconnect_inv_def reconnectTimer_timeout_def)




text \<open>
  The run in full, from \<open>connectToServer\<close> on: the connection is made and lost, five
  attempts are made and fail, and the timer is not started again. The connection errors
  that are emitted are those of the socket, one for each failed attempt.
\<close>

lemma connection_lost_run:
  "reconnect_attempts (snd (transport_run manager_connected (Disconnected # lost_for_good))) = 5 \<and>
   m_reconnectTimer manager_exhausted = False \<and>
   snd (transport_run manager_connecting connection_lost) =
    [Emit_connected, Emit_disconnected,
     Socket_open ''wss://relay.example/ft'', Emit_connectionError ''Connection refused'',
     Emit_disconnected,
     Socket_open ''wss://relay.example/ft'', Emit_connectionError ''Connection refused'',
     Emit_disconnected,
     Socket_open ''wss://relay.example/ft'', Emit_connectionError ''Connection refused'',
     Emit_disconnected,
     Socket_open ''wss://relay.example/ft'', Emit_connectionError ''Connection refused'',
     Emit_disconnected,
     Socket_open ''wss://relay.example/ft'', Emit_connectionError ''Connection refused'',
     Emit_disconnected]"
  by code_simp

subsection \<open>Status changes of a session\<close>

lemma and_then_Inr: "and_then (Inr (m, out)) f =
   (case f m of Inl e \<Rightarrow> Inl e | Inr (m2, out2) \<Rightarrow> Inr (m2, out @ out2))"
  by (simp add: and_then_def)

lemma and_then_Inl: "and_then (Inl e) f = Inl e"
  by (simp add: and_then_def)

lemma deliver_not_approved:
  "st \<noteq> Approved \<Longrightarrow> deliver cs m tid [statusChanged st] = Inr (m, [])"
  by (simp add: session_statusChanged_def and_then_Inr)

lemma status_of_update:
  "status_of (m\<lparr> m_transferSessions := AList.update tid s (m_transferSessions m) \<rparr>) tid =
     Some (m_status s)"
  by (simp add: status_of_def update_conv')

lemma on_session_setStatus:
  assumes "map_of (m_transferSessions m) tid = Some s" "st \<noteq> Approved"
  shows "on_session cs m tid (setStatus st) =
           Inr (m\<lparr> m_transferSessions :=
                     AList.update tid (fst (setStatus st s)) (m_transferSessions m) \<rparr>, [])"
  using assms by (simp add: on_session_def setStatus_def session_statusChanged_def and_then_Inr)

lemma on_session_setError:
  assumes "map_of (m_transferSessions m) tid = Some s"
  shows "on_session cs m tid (setError e) =
           Inr (m\<lparr> m_transferSessions :=
                     AList.update tid (fst (setError e s)) (m_transferSessions m) \<rparr>, [])"
  using assms by (simp add: on_session_def setError_def setStatus_def session_statusChanged_def and_then_Inr)

lemma setStatus_status: "m_status (fst (setStatus st s)) = st"
  by (simp add: setStatus_def)



lemma message_members:
  "toString (member_value (file_transfer_response tid st txt) ''transfer_id'') = tid"
  "toString (member_value (file_transfer_response tid st txt) ''status'') = st"
  "toString (member_value (file_transfer_response tid st txt) ''message'') = txt"
  "toString (member_value (transfer_status_update tid st txt) ''transfer_id'') = tid"
  "toString (member_value (transfer_status_update tid st txt) ''status'') = st"
  "toString (member_value (transfer_status_update tid st txt) ''message'') = txt"
  by (simp_all add: file_transfer_response_def transfer_status_update_def member_value_def)





text \<open>
  A \<open>rejected\<close> frame calls \<open>setStatus(Rejected)\<close> and then \<open>setError\<close>, which sets
  the status to \<open>Failed\<close>.
\<close>

lemma rejected_ends_failed:
  assumes "map_of (m_transferSessions m) tid = Some s"
  shows "status_after (handleTransferResponse cs m (file_transfer_response tid ''rejected'' txt)) tid =
           Inr (Some Failed) \<and>
         status_after (handleTransferStatusUpdate cs m (transfer_status_update tid ''rejected'' txt)) tid =
           Inr (Some Failed)"
proof -
  let ?m1 = "m\<lparr> m_transferSessions :=
                 AList.update tid (fst (setStatus Rejected s)) (m_transferSessions m) \<rparr>"
  have s1: "map_of (m_transferSessions ?m1) tid = Some (fst (setStatus Rejected s))"
    by (simp add: update_conv')
  have f: "m_status (fst (setError e s')) = Failed" for e s'
    by (simp add: setError_def setStatus_def)
  show ?thesis
    using assms
    by (simp add: handleTransferResponse_def handleTransferStatusUpdate_def message_members
        Let_def on_session_setStatus[OF assms] on_session_setError[OF s1] and_then_Inr
        status_after_def status_of_update f)
qed

text \<open>
  An \<open>approved\<close> frame sets the session to \<open>Approved\<close>, whatever its status was, and
  the change of status starts the transfer. When the slot returns, the session is
  \<open>InProgress\<close>, or still \<open>Approved\<close> when the limit of concurrent transfers is
  reached; the thread that was started may change the status afterwards. If a thread of
  an earlier start still runs under the id, storing the new thread destroys it and the
  process ends: this happens to the completed upload \<open>t-1\<close>, while the session of
  an upload that was rejected before it started is started.
\<close>

lemma startTransfer_outcomes:
  assumes "status_of m tid = Some Approved"
  shows "startTransfer cs m tid = Inl QThread_destroyed_while_running \<or>
         status_after (startTransfer cs m tid) tid = Inr (Some Approved) \<or>
         status_after (startTransfer cs m tid) tid = Inr (Some InProgress)"
  using assms
  by (auto simp: startTransfer_def Let_def setStatus_status status_of_def status_after_def
      update_conv' split: option.splits)

lemma approved_outcomes:
  assumes "map_of (m_transferSessions m) tid = Some s"
  shows "handleTransferResponse cs m (file_transfer_response tid ''approved'' txt) =
           Inl QThread_destroyed_while_running \<or>
         status_after (handleTransferResponse cs m (file_transfer_response tid ''approved'' txt)) tid
           \<in> {Inr (Some Approved), Inr (Some InProgress)}"
proof (cases "m_status s = Approved")
  case True
  then show ?thesis
    using assms
    by (simp add: handleTransferResponse_def message_members Let_def on_session_def
        setStatus_def status_after_def status_of_update)
next
  case False
  let ?m1 = "m\<lparr> m_transferSessions :=
                 AList.update tid (s\<lparr> m_status := Approved \<rparr>) (m_transferSessions m) \<rparr>"
  have "status_of ?m1 tid = Some Approved" by (simp add: status_of_update)
  from startTransfer_outcomes[OF this, of cs] show ?thesis
    using assms False
    by (auto simp: handleTransferResponse_def message_members Let_def on_session_def
        setStatus_def session_statusChanged_def and_then_def status_after_def
        split: sum.splits prod.splits)
qed

lemma restart_of_a_started_transfer_is_fatal:
  "thread_runs manager_completed ''t-1'' \<and>
   status_after (handleTransferResponse 65536 manager_completed
       (file_transfer_response ''t-1'' ''approved'' [])) ''t-1'' =
     Inl QThread_destroyed_while_running \<and>
   status_after (handleTransferStatusUpdate 65536 manager_completed
       (transfer_status_update ''t-1'' ''approved'' [])) ''t-1'' =
     Inl QThread_destroyed_while_running"
  by code_simp

lemma failed_session_is_started:
  "status_of manager_rejected ''t-1'' = Some Failed \<and>
   status_after (handleTransferResponse 65536 manager_rejected
       (file_transfer_response ''t-1'' ''approved'' [])) ''t-1'' = Inr (Some InProgress)"
  by code_simp

lemma cancel_without_finished_thread_is_fatal:
  "status_after (cancelTransfer 65536 False manager_completed ''t-1'') ''t-1'' =
     Inl QThread_destroyed_while_running"
  by code_simp

text \<open>
  Pausing and resuming go through the worker: while it runs, \<open>pauseTransfer\<close> sets the
  session to \<open>Paused\<close> and \<open>resumeTransfer\<close> sets a paused one to \<open>InProgress\<close>,
  again whatever the status was; a worker that does not run leaves the status alone.
\<close>

lemma pause_sets_paused:
  assumes "map_of (m_transferSessions m) tid = Some s"
    and "map_of (m_transferWorkers m) tid = Some w" "w_isRunning w" "\<not> w_isPaused w"
  shows "status_after (pauseTransfer cs m tid) tid = Inr (Some Paused)"
  using assms
  by (auto simp: pauseTransfer_def on_worker_def Worker_pauseTransfer_def setPaused_def
      setStatus_def Let_def session_statusChanged_def status_of_def update_conv' and_then_Inr
      status_after_def)

lemma resume_sets_in_progress:
  assumes "map_of (m_transferSessions m) tid = Some s"
    and "map_of (m_transferWorkers m) tid = Some w" "w_isRunning w" "w_isPaused w"
  shows "status_after (resumeTransfer cs m tid) tid = Inr (Some InProgress)"
  using assms
  by (auto simp: resumeTransfer_def on_worker_def Worker_resumeTransfer_def setPaused_def
      setStatus_def Let_def session_statusChanged_def status_of_def update_conv' and_then_Inr
      status_after_def)

lemma pause_resume_idle_worker:
  assumes "map_of (m_transferWorkers m) tid = Some w" "\<not> w_isRunning w"
  shows "status_after (pauseTransfer cs m tid) tid = Inr (status_of m tid)"
    and "status_after (resumeTransfer cs m tid) tid = Inr (status_of m tid)"
  using assms
  by (auto simp: pauseTransfer_def resumeTransfer_def on_worker_def Worker_pauseTransfer_def
      Worker_resumeTransfer_def status_of_def update_conv' and_then_Inr status_after_def
      map_of_eq_None_iff split: option.splits)


subsection \<open>Binary chunk frames: encoding and decoding\<close>

lemma be_bytes_word:
  fixes w :: "32 word"
  shows "push_bit 24 (ucast (ucast (drop_bit 24 w AND 255) :: 8 word)) OR
         push_bit 16 (ucast (ucast (drop_bit 16 w AND 255) :: 8 word)) OR
         push_bit 8 (ucast (ucast (drop_bit 8 w AND 255) :: 8 word)) OR
         ucast (ucast (w AND 255) :: 8 word) = w"
proof -
  have m: "(255 :: 32 word) = mask 8" by (simp add: mask_eq_exp_minus_1)
  show ?thesis
    unfolding m
  proof (rule bit_word_eqI)
    fix n :: nat
    assume n: "n < LENGTH(32)"
    consider "n < 8" | "8 \<le> n" "n < 16" | "16 \<le> n" "n < 24" | "24 \<le> n" by linarith
    then show "bit ((push_bit 24 (ucast (ucast (drop_bit 24 w AND mask 8) :: 8 word)) OR
         push_bit 16 (ucast (ucast (drop_bit 16 w AND mask 8) :: 8 word)) OR
         push_bit 8 (ucast (ucast (drop_bit 8 w AND mask 8) :: 8 word)) OR
         ucast (ucast (w AND mask 8) :: 8 word)) :: 32 word) n = bit w n"
    proof cases
      case 1
      then show ?thesis by (simp add: bit_simps)
    next
      case 2
      then show ?thesis by (auto simp: bit_simps)
    next
      case 3
      then show ?thesis by (auto simp: bit_simps)
    next
      case 4
      then show ?thesis using n by (auto simp: bit_simps)
    qed
  qed
qed

lemma sint_small: "0 \<le> n \<Longrightarrow> n < 2^31 \<Longrightarrow> sint (word_of_int n :: 32 word) = n"
  by (simp add: sint_sbintrunc' signed_take_bit_int_eq_self)


lemma mid_header:
  assumes "length p = 4"
  shows "mid (p @ h @ d) 4 (int (length h)) = h"
  using assms by (simp add: mid_def Let_def)

lemma mid_payload:
  assumes "length p = 4"
  shows "mid (p @ h @ d) (4 + int (length h)) (- 1) = d"
  using assms by (simp add: mid_def Let_def nat_add_distrib)

lemma headerLength_of_frame:
  assumes "int (length h) < 2^31"
  shows "headerLength_of
           ([ucast (drop_bit 24 (word_of_int (int (length h)) :: 32 word) AND 255),
             ucast (drop_bit 16 (word_of_int (int (length h)) :: 32 word) AND 255),
             ucast (drop_bit 8 (word_of_int (int (length h)) :: 32 word) AND 255),
             ucast ((word_of_int (int (length h)) :: 32 word) AND 255)] @ h @ d) =
         int (length h)"
proof -
  let ?w = "word_of_int (int (length h)) :: 32 word"
  note n = assms
  have "headerLength_of
           ([ucast (drop_bit 24 ?w AND 255), ucast (drop_bit 16 ?w AND 255),
             ucast (drop_bit 8 ?w AND 255), ucast (?w AND 255)] @ h @ d) =
        sint (push_bit 24 (ucast (ucast (drop_bit 24 ?w AND 255) :: 8 word)) OR
              push_bit 16 (ucast (ucast (drop_bit 16 ?w AND 255) :: 8 word)) OR
              push_bit 8 (ucast (ucast (drop_bit 8 ?w AND 255) :: 8 word)) OR
              (ucast (ucast (?w AND 255) :: 8 word) :: 32 word))"
    unfolding headerLength_of_def by (simp only: append_Cons nth_Cons_0 nth_Cons_Suc
        numeral_2_eq_2 numeral_3_eq_3 One_nat_def)
  also have "\<dots> = sint ?w" by (simp only: be_bytes_word)
  also have "\<dots> = int (length h)" using n by (intro sint_small) simp_all
  finally show ?thesis .
qed

lemma header_members:
  "toString (member_value (chunk_header c) ''transfer_id'') = chunk_transferId c"
  "toString (member_value (chunk_header c) ''checksum'') = chunk_checksum c"
  "toBool (member_value (chunk_header c) ''is_last'') = isLast c"
  "member_value (chunk_header c) ''chunk_index'' = JInt (chunkIndex c)"
  by (simp_all add: chunk_header_def member_value_def)

text \<open>
  Claim C5. Let the JSON parser return the header object that the JSON writer wrote, let
  the header text be shorter than \<open>2^31\<close> bytes (its length is an \<open>int\<close>) and let the
  chunk index be a non-negative \<open>int\<close>. Then decoding the frame that \<open>sendBinaryChunk\<close>
  builds for a chunk gives back the chunk: the same transfer id, index, checksum, last
  flag and payload. On a connected manager \<open>sendBinaryChunk\<close> sends exactly that frame.
\<close>

theorem chunk_frame_roundtrip:
  assumes json: "fromJson (toJson (DocObject (chunk_header c))) = Some (DocObject (chunk_header c))"
    and size: "int (length (toJson (DocObject (chunk_header c)))) < 2^31"
    and index: "0 \<le> chunkIndex c" "chunkIndex c < 2^31"
  shows "decodeChunk fromJson (encodeChunk toJson c) = Inr c \<and>
         sendBinaryChunk toJson (m\<lparr> m_isConnected := True \<rparr>) c =
           [Socket_sendBinary (encodeChunk toJson c)]"
proof -
  let ?h = "toJson (DocObject (chunk_header c))"
  let ?w = "word_of_int (int (length ?h)) :: 32 word"
  let ?p = "[ucast (drop_bit 24 ?w AND 255), ucast (drop_bit 16 ?w AND 255),
             ucast (drop_bit 8 ?w AND 255), ucast (?w AND 255)] :: QByteArray"
  have frame: "encodeChunk toJson c = ?p @ ?h @ chunk_data c"
    by (simp add: encodeChunk_def Let_def)
  have p: "length ?p = 4" by simp
  have hl: "headerLength_of (?p @ ?h @ chunk_data c) = int (length ?h)"
    using headerLength_of_frame[OF size] by simp
  have "decodeChunk fromJson (?p @ ?h @ chunk_data c) = Inr c"
    unfolding decodeChunk_def hl Let_def mid_header[OF p] mid_payload[OF p]
    using index by (simp add: json header_members)
  then show ?thesis by (simp add: frame sendBinaryChunk_def)
qed

theorem chunk_frame_roundtrip_witness:
  "compact_fromJson (compact_toJson (DocObject (chunk_header chunk_example))) =
     Some (DocObject (chunk_header chunk_example)) \<and>
   length (compact_toJson (DocObject (chunk_header chunk_example))) = 74 \<and>
   decodeChunk compact_fromJson (encodeChunk compact_toJson chunk_example) = Inr chunk_example"
proof -
  have j: "compact_fromJson (compact_toJson (DocObject (chunk_header chunk_example))) =
     Some (DocObject (chunk_header chunk_example))"
    by code_simp
  have l: "length (compact_toJson (DocObject (chunk_header chunk_example))) = 74"
    by code_simp
  have i: "chunkIndex chunk_example = 2" by (simp add: chunk_example_def)
  show ?thesis
    using chunk_frame_roundtrip [of compact_fromJson compact_toJson chunk_example, OF j] j l i
    by simp
qed

subsection \<open>Binary chunk frames: malformed frames\<close>

text \<open>
  Decoding fails exactly in the three cases of the source, with the header length read
  as a signed 32-bit number, and a frame that fails to decode has no effect. The signed
  header length is the unsigned big-endian number when that is below \<open>2^31\<close>, and
  \<open>2^32\<close> less otherwise; so for frames whose first byte is below 128 the three cases
  are: fewer than 4 bytes, a header length beyond the rest of the frame, a header that
  does not parse.
\<close>

lemma or_sum:
  fixes a b c d :: "8 word"
  shows "(push_bit 24 (ucast a) OR push_bit 16 (ucast b) OR push_bit 8 (ucast c) OR ucast d :: 32 word) =
         push_bit 24 (ucast a) + (push_bit 16 (ucast b) + (push_bit 8 (ucast c) + ucast d))"
proof -
  have 1: "push_bit 8 (ucast c) + (ucast d :: 32 word) = push_bit 8 (ucast c) OR ucast d"
    by (rule disjunctive_add) (auto simp: bit_simps dest: bit_imp_le_length)
  have 2: "push_bit 16 (ucast b) + (push_bit 8 (ucast c) OR ucast d :: 32 word) =
           push_bit 16 (ucast b) OR (push_bit 8 (ucast c) OR ucast d)"
    by (rule disjunctive_add) (auto simp: bit_simps dest: bit_imp_le_length)
  have 3: "push_bit 24 (ucast a) + (push_bit 16 (ucast b) OR (push_bit 8 (ucast c) OR ucast d) :: 32 word) =
           push_bit 24 (ucast a) OR (push_bit 16 (ucast b) OR (push_bit 8 (ucast c) OR ucast d))"
    by (rule disjunctive_add) (auto simp: bit_simps dest: bit_imp_le_length)
  show ?thesis by (simp only: 1 2 3 or.assoc)
qed

lemma ucast_as_int: "(ucast (a :: 8 word) :: 32 word) = word_of_int (uint a)"
  by (simp add: unsigned_ucast_eq word_uint_eqI uint_word_of_int_eq unsigned_of_int  take_bit_int_eq_self  )


lemma uint_big_endian:
  fixes a b c d :: "8 word"
  shows "uint (push_bit 24 (ucast a) OR push_bit 16 (ucast b) OR push_bit 8 (ucast c) OR ucast d :: 32 word) =
         uint a * 2 ^ 24 + uint b * 2 ^ 16 + uint c * 2 ^ 8 + uint d"
proof -
  let ?x = "uint a * 2 ^ 24 + uint b * 2 ^ 16 + uint c * 2 ^ 8 + uint d"
  have bounds: "0 \<le> uint a" "uint a < 256" "0 \<le> uint b" "uint b < 256"
               "0 \<le> uint c" "uint c < 256" "0 \<le> uint d" "uint d < 256"
    using uint_lt2p[of a] uint_lt2p[of b] uint_lt2p[of c] uint_lt2p[of d] by simp_all
  have "(word_of_int ?x :: 32 word) =
          word_of_int (uint a) * 2 ^ 24 + word_of_int (uint b) * 2 ^ 16 +
          word_of_int (uint c) * 2 ^ 8 + word_of_int (uint d)"
    by (simp only: of_int_add of_int_mult of_int_power of_int_numeral)
  also have "\<dots> = push_bit 24 (ucast a) + (push_bit 16 (ucast b) + (push_bit 8 (ucast c) + ucast d))"
    by (simp only: ucast_as_int push_bit_eq_mult add.assoc)
  finally have w: "(push_bit 24 (ucast a) OR push_bit 16 (ucast b) OR push_bit 8 (ucast c) OR ucast d :: 32 word) =
           word_of_int ?x"
    by (simp only: or_sum)
  have "0 \<le> ?x" "?x < 2 ^ 32" using bounds by auto
  then have "take_bit 32 ?x = ?x"
    by (intro take_bit_int_eq_self)
  then have "uint (word_of_int ?x :: 32 word) = ?x"
    by (simp only: uint_word_of_int_eq len_bit0 len_num1 mult_numeral_left_semiring_numeral
        numeral_times_numeral semiring_norm mult.right_neutral)
  then show ?thesis by (simp only: w)
qed

lemma headerLength_of_signed:
  "headerLength_of d =
     (if bigEndian32 d < 2 ^ 31 then bigEndian32 d else bigEndian32 d - 2 ^ 32)"
proof -
  have b: "0 \<le> bigEndian32 d" "bigEndian32 d < 2 ^ 32"
    using uint_lt2p[of "d ! 0"] uint_lt2p[of "d ! 1"] uint_lt2p[of "d ! 2"] uint_lt2p[of "d ! 3"]
    by (auto simp: bigEndian32_def)
  have "headerLength_of d = signed_take_bit 31 (bigEndian32 d)"
    by (simp add: headerLength_of_def sint_uint uint_big_endian bigEndian32_def)
  also have "\<dots> = (if bigEndian32 d < 2 ^ 31 then bigEndian32 d else bigEndian32 d - 2 ^ 32)"
  proof (cases "bigEndian32 d < 2 ^ 31")
    case True
    then show ?thesis using b by (simp add: signed_take_bit_int_eq_self)
  next
    case False
    have "take_bit (Suc 31) (bigEndian32 d) = take_bit (Suc 31) (bigEndian32 d - 2 ^ 32)"
      by (simp add: take_bit_eq_mod)
    then have "signed_take_bit 31 (bigEndian32 d) = signed_take_bit 31 (bigEndian32 d - 2 ^ 32)"
      by (simp only: signed_take_bit_eq_iff_take_bit_eq)
    then show ?thesis using b False by (simp add: signed_take_bit_int_eq_self)
  qed
  finally show ?thesis .
qed

lemma decode_fails_iff:
  "(\<exists>e. decodeChunk fromJson d = Inl e) \<longleftrightarrow>
     int (length d) < 4 \<or> headerLength_of d > int (length d) - 4 \<or>
     fromJson (mid d 4 (headerLength_of d)) = None"
  by (auto simp: decodeChunk_def Let_def split: option.splits)

lemma failed_decode_is_dropped:
  "decodeChunk fromJson d = Inl e \<Longrightarrow> onWebSocketBinaryMessageReceived fromJson m d = []"
  by (simp add: onWebSocketBinaryMessageReceived_def)

lemma negative_length_any_parser:
  assumes "fromJson (bytes_of ''{}'') = Some (DocObject [])"
  shows "decodeChunk fromJson frame_negative_length =
           Inr \<lparr> chunk_transferId = [], chunkIndex = 0, chunk_data = [255, 123, 125],
                 chunk_checksum = [], isLast = False \<rparr>"
proof -
  have f: "frame_negative_length = [255, 255, 255, 255, 123, 125]"
    by (simp add: frame_negative_length_def bytes_of_def)
  have h: "headerLength_of [255, 255, 255, 255, 123, 125] = - 1"
    by (simp add: headerLength_of_def)
  have m1: "mid [255, 255, 255, 255, 123, 125] 4 (- 1) = [123, 125]"
    and m2: "mid [255, 255, 255, 255, 123, 125] (4 + - 1) (- 1) = [255, 123, 125]"
    by code_simp+
  have b: "bytes_of ''{}'' = [123, 125]" by (simp add: bytes_of_def)
  show ?thesis
    unfolding f decodeChunk_def h Let_def m1 m2
    using assms by (simp add: b member_value_def)
qed


lemma decode_fails_iff_unsigned:
  assumes "bigEndian32 d < 2 ^ 31"
  shows "(\<exists>e. decodeChunk fromJson d = Inl e) \<longleftrightarrow>
           int (length d) < 4 \<or> bigEndian32 d > int (length d) - 4 \<or>
           fromJson (mid d 4 (bigEndian32 d)) = None"
  using assms by (simp add: decode_fails_iff headerLength_of_signed)

text \<open>
  A frame with a length prefix below \<open>2^31\<close> that decodes gives the chunk described by
  its header document, with the bytes after the header as payload.
\<close>

lemma decoded_chunk:
  assumes "decodeChunk fromJson d = Inr c" "bigEndian32 d < 2 ^ 31"
  shows "\<exists>doc. fromJson (take (nat (bigEndian32 d)) (drop 4 d)) = Some doc \<and>
           chunk_transferId c = toString (member_value (object doc) ''transfer_id'') \<and>
           chunkIndex c = toInt (member_value (object doc) ''chunk_index'') \<and>
           chunk_checksum c = toString (member_value (object doc) ''checksum'') \<and>
           isLast c = toBool (member_value (object doc) ''is_last'') \<and>
           chunk_data c = drop (4 + nat (bigEndian32 d)) d"
proof -
  have nn: "0 \<le> bigEndian32 d" by (simp add: bigEndian32_def)
  have hl: "headerLength_of d = bigEndian32 d" using assms(2) by (simp add: headerLength_of_signed)
  have len: "4 \<le> int (length d)" "bigEndian32 d \<le> int (length d) - 4"
    using assms(1) by (auto simp: decodeChunk_def hl Let_def split: if_splits)
  have m1: "mid d 4 (bigEndian32 d) = take (nat (bigEndian32 d)) (drop 4 d)"
    using nn len by (simp add: mid_def Let_def)
  have m2: "mid d (4 + bigEndian32 d) (- 1) = drop (4 + nat (bigEndian32 d)) d"
    using nn len by (simp add: mid_def Let_def nat_add_distrib)
  show ?thesis
    using assms(1) len
    by (auto simp: decodeChunk_def hl Let_def m1 m2 split: if_splits option.splits)
qed

text \<open>
  Claim C4, at a frame whose length prefix has the top bit set: the bytes
  \<open>FF FF FF FF\<close> followed by \<open>{}\<close>. The big-endian header length 4294967295 exceeds
  the 2 bytes that follow, yet the frame is not discarded: read as an \<open>int\<close> the length
  is \<open>-1\<close>, the length check passes, the rest of the frame is parsed as the header and a
  chunk with empty transfer id, index 0 and a three-byte payload is produced.
\<close>

theorem negative_header_length_accepted:
  "bigEndian32 frame_negative_length = 4294967295 \<and>
   int (length frame_negative_length) - 4 = 2 \<and>
   headerLength_of frame_negative_length = - 1 \<and>
   decodeChunk compact_fromJson frame_negative_length =
     Inr \<lparr> chunk_transferId = [], chunkIndex = 0, chunk_data = [255, 123, 125],
           chunk_checksum = [], isLast = False \<rparr>"
  by code_simp

end
